theory Spec2Isabelle
  imports Complex_Main "HOL-Library.Word"
begin

section \<open>JavaScript strings and byte buffers\<close>

text \<open>
  A JavaScript string is a sequence of UTF-16 code units; \<open>password.length\<close> and the
  regular expressions of the sources (none has the \<open>u\<close> flag) count and match code units.
  A \<open>Uint8Array\<close> is a sequence of bytes.
\<close>

type_synonym js_string = "16 word list"
type_synonym bytes = "8 word list"

text \<open>An ASCII literal of the source, as a JavaScript string.\<close>

definition str :: "string \<Rightarrow> js_string" where
  "str s = map (\<lambda>c. of_nat (of_char c)) s"

text \<open>Decimal rendering of a non-negative integer (template literals, array indices).\<close>

fun digits_of :: "nat \<Rightarrow> nat \<Rightarrow> string" where
  "digits_of 0 n = []"
| "digits_of (Suc fuel) n =
     (if n < 10 then [''0123456789'' ! n]
      else digits_of fuel (n div 10) @ [''0123456789'' ! (n mod 10)])"

definition show_nat :: "nat \<Rightarrow> string" where
  "show_nat n = digits_of (Suc n) n"

subsection \<open>\<open>TextEncoder.encode\<close>: UTF-16 code units to UTF-8 bytes\<close>

definition is_high_surrogate :: "nat \<Rightarrow> bool" where
  "is_high_surrogate c = (0xD800 \<le> c \<and> c \<le> 0xDBFF)"

definition is_low_surrogate :: "nat \<Rightarrow> bool" where
  "is_low_surrogate c = (0xDC00 \<le> c \<and> c \<le> 0xDFFF)"

definition is_surrogate :: "nat \<Rightarrow> bool" where
  "is_surrogate c = (is_high_surrogate c \<or> is_low_surrogate c)"

text \<open>
  The encoder first converts the string to scalar values: a surrogate pair is one code
  point, and an unpaired surrogate is replaced by U+FFFD.
\<close>

fun scalar_values :: "nat list \<Rightarrow> nat list" where
  "scalar_values [] = []"
| "scalar_values [c] = [if is_surrogate c then 0xFFFD else c]"
| "scalar_values (c # d # cs) =
     (if is_high_surrogate c \<and> is_low_surrogate d
      then (0x10000 + (c - 0xD800) * 0x400 + (d - 0xDC00)) # scalar_values cs
      else (if is_surrogate c then 0xFFFD else c) # scalar_values (d # cs))"

definition utf8_of_code_point :: "nat \<Rightarrow> nat list" where
  "utf8_of_code_point c =
     (if c < 0x80 then [c]
      else if c < 0x800 then [0xC0 + c div 0x40, 0x80 + c mod 0x40]
      else if c < 0x10000 then
        [0xE0 + c div 0x1000, 0x80 + (c div 0x40) mod 0x40, 0x80 + c mod 0x40]
      else
        [0xF0 + c div 0x40000, 0x80 + (c div 0x1000) mod 0x40,
         0x80 + (c div 0x40) mod 0x40, 0x80 + c mod 0x40])"

definition text_encode :: "js_string \<Rightarrow> bytes" where
  "text_encode s =
     map of_nat (concat (map utf8_of_code_point (scalar_values (map unat s))))"

subsection \<open>\<open>new TextDecoder().decode\<close>: UTF-8 bytes to UTF-16 code units\<close>

text \<open>
  The decoder of the sources is created with no options: malformed input is replaced by
  U+FFFD (it never throws) and a leading byte order mark is dropped from the output.
  The state is that of the Encoding Standard's UTF-8 decoder; masking a lead byte is
  written with \<open>mod\<close>, and shifting in six bits with \<open>* 0x40 +\<close>.
\<close>

record utf8_decoder =
  code_point :: nat
  bytes_seen :: nat
  bytes_needed :: nat
  lower_boundary :: nat
  upper_boundary :: nat

definition utf8_initial :: utf8_decoder where
  "utf8_initial =
     \<lparr>code_point = 0, bytes_seen = 0, bytes_needed = 0,
      lower_boundary = 0x80, upper_boundary = 0xBF\<rparr>"

text \<open>A byte read with no sequence pending: a code point, or the state of a new sequence.\<close>

definition utf8_lead :: "nat \<Rightarrow> nat + utf8_decoder" where
  "utf8_lead b =
     (if b \<le> 0x7F then Inl b
      else if 0xC2 \<le> b \<and> b \<le> 0xDF then
        Inr (utf8_initial\<lparr>bytes_needed := 1, code_point := b mod 0x20\<rparr>)
      else if 0xE0 \<le> b \<and> b \<le> 0xEF then
        Inr (utf8_initial\<lparr>bytes_needed := 2, code_point := b mod 0x10,
               lower_boundary := (if b = 0xE0 then 0xA0 else 0x80),
               upper_boundary := (if b = 0xED then 0x9F else 0xBF)\<rparr>)
      else if 0xF0 \<le> b \<and> b \<le> 0xF4 then
        Inr (utf8_initial\<lparr>bytes_needed := 3, code_point := b mod 0x08,
               lower_boundary := (if b = 0xF0 then 0x90 else 0x80),
               upper_boundary := (if b = 0xF4 then 0x8F else 0xBF)\<rparr>)
      else Inl 0xFFFD)"

fun utf8_decode :: "utf8_decoder \<Rightarrow> nat list \<Rightarrow> nat list" where
  "utf8_decode s [] = (if bytes_needed s \<noteq> 0 then [0xFFFD] else [])"
| "utf8_decode s (b # bs) =
     (if bytes_needed s = 0 then
        (case utf8_lead b of
           Inl c \<Rightarrow> c # utf8_decode utf8_initial bs
         | Inr s' \<Rightarrow> utf8_decode s' bs)
      else if b < lower_boundary s \<or> upper_boundary s < b then
        0xFFFD #
        (case utf8_lead b of
           Inl c \<Rightarrow> c # utf8_decode utf8_initial bs
         | Inr s' \<Rightarrow> utf8_decode s' bs)
      else if Suc (bytes_seen s) \<noteq> bytes_needed s then
        utf8_decode
          (s\<lparr>lower_boundary := 0x80, upper_boundary := 0xBF,
             code_point := code_point s * 0x40 + b mod 0x40,
             bytes_seen := Suc (bytes_seen s)\<rparr>) bs
      else (code_point s * 0x40 + b mod 0x40) # utf8_decode utf8_initial bs)"

definition utf16_of_code_point :: "nat \<Rightarrow> nat list" where
  "utf16_of_code_point c =
     (if c < 0x10000 then [c]
      else [0xD800 + (c - 0x10000) div 0x400, 0xDC00 + (c - 0x10000) mod 0x400])"

definition strip_bom :: "nat list \<Rightarrow> nat list" where
  "strip_bom cs = (case cs of [] \<Rightarrow> [] | c # rest \<Rightarrow> if c = 0xFEFF then rest else cs)"

definition text_decode :: "bytes \<Rightarrow> js_string" where
  "text_decode bs =
     map of_nat
       (concat (map utf16_of_code_point
          (strip_bom (utf8_decode utf8_initial (map unat bs)))))"

subsection \<open>\<open>btoa\<close> and \<open>atob\<close>\<close>

datatype js_error =
    InvalidCharacterError
  | OperationError
  | SyntaxError
  | TypeError
  | RangeError
  | Error string
  | ErrorFrom string js_error

definition fromCharCode :: "bytes \<Rightarrow> js_string" where
  "fromCharCode bs = map (\<lambda>b. of_nat (unat b)) bs"

definition charCodes :: "js_string \<Rightarrow> bytes" where
  "charCodes s = map (\<lambda>c. of_nat (unat c)) s"

definition b64_digit :: "nat \<Rightarrow> nat" where
  "b64_digit i =
     (if i < 26 then 0x41 + i
      else if i < 52 then 0x61 + (i - 26)
      else if i < 62 then 0x30 + (i - 52)
      else if i = 62 then 0x2B else 0x2F)"

fun b64_encode :: "nat list \<Rightarrow> nat list" where
  "b64_encode (a # b # c # rest) =
     [b64_digit (a div 4), b64_digit ((a mod 4) * 16 + b div 16),
      b64_digit ((b mod 16) * 4 + c div 64), b64_digit (c mod 64)] @ b64_encode rest"
| "b64_encode [a, b] =
     [b64_digit (a div 4), b64_digit ((a mod 4) * 16 + b div 16),
      b64_digit ((b mod 16) * 4), 0x3D]"
| "b64_encode [a] = [b64_digit (a div 4), b64_digit ((a mod 4) * 16), 0x3D, 0x3D]"
| "b64_encode [] = []"

text \<open>\<open>btoa\<close> throws when a code unit is above U+00FF.\<close>

definition btoa :: "js_string \<Rightarrow> js_error + js_string" where
  "btoa s =
     (if list_ex (\<lambda>c. 0xFF < unat c) s then Inl InvalidCharacterError
      else Inr (map of_nat (b64_encode (map unat s))))"

definition b64_value :: "nat \<Rightarrow> nat option" where
  "b64_value c =
     (if 0x41 \<le> c \<and> c \<le> 0x5A then Some (c - 0x41)
      else if 0x61 \<le> c \<and> c \<le> 0x7A then Some (c - 0x61 + 26)
      else if 0x30 \<le> c \<and> c \<le> 0x39 then Some (c - 0x30 + 52)
      else if c = 0x2B then Some 62
      else if c = 0x2F then Some 63
      else None)"

definition ascii_whitespace :: "nat \<Rightarrow> bool" where
  "ascii_whitespace c = (c = 0x09 \<or> c = 0x0A \<or> c = 0x0C \<or> c = 0x0D \<or> c = 0x20)"

definition strip_padding :: "nat list \<Rightarrow> nat list" where
  "strip_padding cs =
     (if length cs mod 4 = 0 \<and> cs \<noteq> [] \<and> last cs = 0x3D then
        (if butlast cs \<noteq> [] \<and> last (butlast cs) = 0x3D then butlast (butlast cs)
         else butlast cs)
      else cs)"

fun b64_decode :: "nat list \<Rightarrow> nat list" where
  "b64_decode (a # b # c # d # rest) =
     [a * 4 + b div 16, (b mod 16) * 16 + c div 4, (c mod 4) * 64 + d] @ b64_decode rest"
| "b64_decode [a, b, c] = [a * 4 + b div 16, (b mod 16) * 16 + c div 4]"
| "b64_decode [a, b] = [a * 4 + b div 16]"
| "b64_decode [a] = []"
| "b64_decode [] = []"

text \<open>
  \<open>atob\<close> is the forgiving-base64 decode: ASCII whitespace is removed, one or two
  trailing \<open>=\<close> are removed when the length is a multiple of four, and it throws when
  the remaining length is 1 modulo 4 or a character is outside the alphabet.
\<close>

definition atob :: "js_string \<Rightarrow> js_error + js_string" where
  "atob s =
     (let cs = strip_padding (filter (\<lambda>c. \<not> ascii_whitespace c) (map unat s)) in
      if length cs mod 4 = 1 \<or> list_ex (\<lambda>c. b64_value c = None) cs
      then Inl InvalidCharacterError
      else Inr (map of_nat (b64_decode (map (\<lambda>c. the (b64_value c)) cs))))"


section \<open>JavaScript values\<close>

text \<open>
  What \<open>JSON.parse\<close> returns and what the sources build from it. Objects keep their
  properties in insertion order. An array carries, besides its elements, the named
  properties assigned to it (none after \<open>JSON.parse\<close>). \<open>JFun\<close> is the built-in
  method \<open>Array.prototype.keys\<close>, which is what \<open>x.keys\<close> reads when \<open>x\<close> is an array.
  \<open>JSON.parse\<close> yields no \<open>NaN\<close>, so a number is falsy exactly when it is zero.
\<close>

datatype jsval =
    JUndefined
  | JNull
  | JBool bool
  | JNum real
  | JStr js_string
  | JArr "jsval list" "(js_string \<times> jsval) list"
  | JObj "(js_string \<times> jsval) list"
  | JFun

type_synonym props = "(js_string \<times> jsval) list"

fun truthy :: "jsval \<Rightarrow> bool" where
  "truthy JUndefined = False"
| "truthy JNull = False"
| "truthy (JBool b) = b"
| "truthy (JNum r) = (r \<noteq> 0)"
| "truthy (JStr s) = (s \<noteq> [])"
| "truthy (JArr xs ps) = True"
| "truthy (JObj ps) = True"
| "truthy JFun = True"

fun isArray :: "jsval \<Rightarrow> bool" where
  "isArray (JArr xs ps) = True"
| "isArray v = False"

definition lookup :: "props \<Rightarrow> js_string \<Rightarrow> jsval" where
  "lookup ps k = (case map_of ps k of None \<Rightarrow> JUndefined | Some v \<Rightarrow> v)"

text \<open>
  Reading \<open>v.k\<close>, for the property names the sources read (\<open>data\<close>, \<open>salt\<close>, \<open>iv\<close>,
  \<open>keys\<close>, \<open>settings\<close>, \<open>version\<close>, \<open>name\<close>): none of them is inherited from
  \<open>Object.prototype\<close>, \<open>String.prototype\<close>, \<open>Number.prototype\<close> or \<open>Boolean.prototype\<close>,
  and only \<open>keys\<close> is inherited from \<open>Array.prototype\<close>.
\<close>

fun js_get :: "jsval \<Rightarrow> js_string \<Rightarrow> js_error + jsval" where
  "js_get JUndefined k = Inl TypeError"
| "js_get JNull k = Inl TypeError"
| "js_get (JObj ps) k = Inr (lookup ps k)"
| "js_get (JArr xs ps) k = Inr (if k = str ''keys'' then JFun else lookup ps k)"
| "js_get JFun k = Inr (if k = str ''name'' then JStr (str ''keys'') else JUndefined)"
| "js_get v k = Inr JUndefined"

text \<open>Defining a property: an existing key keeps its place, a new one goes last.\<close>

fun put :: "props \<Rightarrow> js_string \<Rightarrow> jsval \<Rightarrow> props" where
  "put [] k v = [(k, v)]"
| "put ((k', v') # ps) k v = (if k' = k then (k, v) # ps else (k', v') # put ps k v)"

text \<open>
  The assignment \<open>v.k = x\<close> in module (strict) code: it throws on \<open>null\<close>, \<open>undefined\<close>
  and on a primitive value.
\<close>

fun set_prop :: "jsval \<Rightarrow> js_string \<Rightarrow> jsval \<Rightarrow> js_error + jsval" where
  "set_prop (JObj ps) k x = Inr (JObj (put ps k x))"
| "set_prop (JArr xs ps) k x = Inr (JArr xs (put ps k x))"
| "set_prop JFun k x = Inr JFun"
| "set_prop v k x = Inl TypeError"

text \<open>The own enumerable properties that an object spread \<open>{...v}\<close> copies.\<close>

definition index_keys :: "nat \<Rightarrow> js_string list" where
  "index_keys n = map (\<lambda>i. str (show_nat i)) [0..<n]"

fun own_props :: "jsval \<Rightarrow> props" where
  "own_props (JObj ps) = ps"
| "own_props (JArr xs ps) = zip (index_keys (length xs)) xs @ ps"
| "own_props (JStr s) = zip (index_keys (length s)) (map (\<lambda>c. JStr [c]) s)"
| "own_props v = []"

definition spread :: "props \<Rightarrow> jsval \<Rightarrow> props" where
  "spread ps v = foldl (\<lambda>acc (k, x). put acc k x) ps (own_props v)"

definition and_then :: "'e + 'a \<Rightarrow> ('a \<Rightarrow> 'e + 'b) \<Rightarrow> 'e + 'b" where
  "and_then m f = (case m of Inl e \<Rightarrow> Inl e | Inr x \<Rightarrow> f x)"

section \<open>The platform\<close>

text \<open>
  The Web Crypto primitives, \<open>JSON\<close> and the \<open>ToString\<close> conversion are not code of the
  repository; the model takes them as parameters. \<open>pbkdf2\<close> is PBKDF2 with SHA-256 and
  100000 iterations, deriving a 256-bit key from the password bytes and the salt;
  \<open>aes_gcm_decrypt\<close> is \<open>None\<close> where \<open>crypto.subtle.decrypt\<close> rejects; \<open>json_parse\<close> is
  \<open>None\<close> where \<open>JSON.parse\<close> throws. \<open>max_arguments\<close> is the engine's limit on the
  number of arguments of one call: a spread call with more throws \<open>RangeError\<close>. The
  values of \<open>crypto.getRandomValues\<close> are arguments (\<open>salt\<close>, \<open>iv\<close>) of the functions that
  draw them.
\<close>

record platform =
  pbkdf2 :: "bytes \<Rightarrow> bytes \<Rightarrow> bytes"
  aes_gcm_encrypt :: "bytes \<Rightarrow> bytes \<Rightarrow> bytes \<Rightarrow> bytes"
  aes_gcm_decrypt :: "bytes \<Rightarrow> bytes \<Rightarrow> bytes \<Rightarrow> bytes option"
  json_parse :: "js_string \<Rightarrow> jsval option"
  json_stringify :: "jsval \<Rightarrow> js_string"
  to_string :: "jsval \<Rightarrow> js_error + js_string"
  max_arguments :: nat

definition parse :: "platform \<Rightarrow> js_string \<Rightarrow> js_error + jsval" where
  "parse P s = (case json_parse P s of None \<Rightarrow> Inl SyntaxError | Some v \<Rightarrow> Inr v)"

section \<open>crypto.ts\<close>

definition deriveKey :: "platform \<Rightarrow> js_string \<Rightarrow> bytes \<Rightarrow> bytes" where
  "deriveKey P password salt = pbkdf2 P (text_encode password) salt"

text \<open>\<open>String.fromCharCode(...bytes)\<close>: every byte is one argument of the call.\<close>

definition fromCharCode_spread :: "platform \<Rightarrow> bytes \<Rightarrow> js_error + js_string" where
  "fromCharCode_spread P bs =
     (if max_arguments P < length bs then Inl RangeError else Inr (fromCharCode bs))"

definition encryptData ::
  "platform \<Rightarrow> bytes \<Rightarrow> bytes \<Rightarrow> js_string \<Rightarrow> js_string \<Rightarrow> js_error + jsval" where
  "encryptData P salt iv plaintext password =
     (let key = deriveKey P password salt;
          encryptedData = aes_gcm_encrypt P key iv (text_encode plaintext)
      in and_then (fromCharCode_spread P encryptedData) (\<lambda>dc.
         and_then (btoa dc) (\<lambda>d.
         and_then (fromCharCode_spread P salt) (\<lambda>sc.
         and_then (btoa sc) (\<lambda>s.
         and_then (fromCharCode_spread P iv) (\<lambda>ic.
         and_then (btoa ic) (\<lambda>i.
           Inr (JObj [(str ''data'', JStr d), (str ''salt'', JStr s), (str ''iv'', JStr i)]))))))))"

text \<open>\<open>atob(encryptedData.salt)\<close>: the property is read, converted to a string, decoded.\<close>

definition atob_field :: "platform \<Rightarrow> jsval \<Rightarrow> js_string \<Rightarrow> js_error + bytes" where
  "atob_field P encryptedData k =
     and_then (js_get encryptedData k) (\<lambda>v.
     and_then (case v of JStr s \<Rightarrow> Inr s | _ \<Rightarrow> to_string P v) (\<lambda>s.
     and_then (atob s) (\<lambda>b. Inr (charCodes b))))"

definition decryptData :: "platform \<Rightarrow> jsval \<Rightarrow> js_string \<Rightarrow> js_error + js_string" where
  "decryptData P encryptedData password =
     and_then (atob_field P encryptedData (str ''salt'')) (\<lambda>salt.
     and_then (atob_field P encryptedData (str ''iv'')) (\<lambda>iv.
     and_then (atob_field P encryptedData (str ''data'')) (\<lambda>ciphertext.
       case aes_gcm_decrypt P (deriveKey P password salt) iv ciphertext of
         None \<Rightarrow> Inl OperationError
       | Some decryptedData \<Rightarrow> Inr (text_decode decryptedData))))"

section \<open>storage.ts\<close>

type_synonym local_storage = "string \<Rightarrow> js_string option"

definition STORAGE_KEY :: string where
  "STORAGE_KEY = ''secure_vault_data''"

definition SETTINGS_KEY :: string where
  "SETTINGS_KEY = ''vault_settings''"

definition DEFAULT_SETTINGS :: props where
  "DEFAULT_SETTINGS =
     [(str ''clipboardClearTime'', JNum 30),
      (str ''autoLockTime'', JNum 15),
      (str ''darkMode'', JBool False),
      (str ''showKeyPreview'', JBool False)]"

text \<open>The object literal that \<open>loadVaultData\<close> returns when nothing is stored.\<close>

definition empty_vault :: jsval where
  "empty_vault =
     JObj [(str ''keys'', JArr [] []),
           (str ''settings'', JObj DEFAULT_SETTINGS),
           (str ''version'', JNum 1)]"


definition loadVaultData ::
  "platform \<Rightarrow> js_string \<Rightarrow> local_storage \<Rightarrow> (js_error + jsval) \<times> local_storage" where
  "loadVaultData P masterPassword st =
     (case st STORAGE_KEY of
        None \<Rightarrow> (Inr empty_vault, st)
      | Some storedData \<Rightarrow>
          if storedData = [] then (Inr empty_vault, st)
          else
            (case
               and_then (parse P storedData) (\<lambda>encryptedData.
               and_then (decryptData P encryptedData masterPassword) (\<lambda>decryptedJson.
               and_then (parse P decryptedJson) (\<lambda>vault.
               and_then (js_get vault (str ''settings'')) (\<lambda>settings.
                 set_prop vault (str ''settings'')
                   (JObj (spread DEFAULT_SETTINGS settings))))))
             of
               Inl e \<Rightarrow>
                 (Inl (Error ''Failed to decrypt vault data. Check your master password.''), st)
             | Inr vault \<Rightarrow> (Inr vault, st)))"

definition vaultExists :: "local_storage \<Rightarrow> bool" where
  "vaultExists st = (st STORAGE_KEY \<noteq> None)"

definition importVault ::
  "platform \<Rightarrow> js_string \<Rightarrow> js_string \<Rightarrow> local_storage
     \<Rightarrow> (js_error + jsval) \<times> local_storage" where
  "importVault P backupData masterPassword st =
     (case
        and_then (parse P backupData) (\<lambda>encryptedData.
        and_then (decryptData P encryptedData masterPassword) (\<lambda>decryptedJson.
        and_then (parse P decryptedJson) (\<lambda>importedData.
        and_then (js_get importedData (str ''keys'')) (\<lambda>keys.
          if \<not> truthy keys \<or> \<not> isArray keys then Inl (Error ''Invalid backup file format'')
          else
            and_then (js_get importedData (str ''settings'')) (\<lambda>settings.
            and_then (js_get importedData (str ''version'')) (\<lambda>version.
              Inr (JObj [(str ''keys'', keys),
                         (str ''settings'', JObj (spread DEFAULT_SETTINGS settings)),
                         (str ''version'', if truthy version then version else JNum 1)])))))))
      of
        Inl e \<Rightarrow> (Inl (ErrorFrom ''Failed to import vault data: '' e), st)
      | Inr vault \<Rightarrow> (Inr vault, st))"

definition clearVault :: "local_storage \<Rightarrow> local_storage" where
  "clearVault st = (st(STORAGE_KEY := None))(SETTINGS_KEY := None)"

section \<open>AuthScreen.tsx\<close>

text \<open>The regular expressions of \<open>validatePasswordStrength\<close>, as tests on code units.\<close>

definition hasUpperCase :: "js_string \<Rightarrow> bool" where
  "hasUpperCase password = list_ex (\<lambda>c. 0x41 \<le> c \<and> c \<le> 0x5A) password"

definition hasLowerCase :: "js_string \<Rightarrow> bool" where
  "hasLowerCase password = list_ex (\<lambda>c. 0x61 \<le> c \<and> c \<le> 0x7A) password"

definition hasNumbers :: "js_string \<Rightarrow> bool" where
  "hasNumbers password = list_ex (\<lambda>c. 0x30 \<le> c \<and> c \<le> 0x39) password"

definition symbol_class :: js_string where
  \<open>symbol_class = str ''!@#$%^&*(),.?":{}|<>''\<close>

definition hasSymbols :: "js_string \<Rightarrow> bool" where
  "hasSymbols password = list_ex (\<lambda>c. c \<in> set symbol_class) password"

definition isLongEnough :: "js_string \<Rightarrow> bool" where
  "isLongEnough password = (length password \<ge> 8)"

record missing_parts =
  upperCase :: bool
  lowerCase :: bool
  numbers :: bool
  symbols :: bool
  length_missing :: bool

record password_validation =
  isValid :: bool
  missing :: missing_parts

definition validatePasswordStrength :: "js_string \<Rightarrow> password_validation" where
  "validatePasswordStrength password =
     \<lparr>isValid = (hasUpperCase password \<and> hasLowerCase password \<and> hasNumbers password
                 \<and> hasSymbols password \<and> isLongEnough password),
      missing = \<lparr>upperCase = \<not> hasUpperCase password, lowerCase = \<not> hasLowerCase password,
                 numbers = \<not> hasNumbers password, symbols = \<not> hasSymbols password,
                 length_missing = \<not> isLongEnough password\<rparr>\<rparr>"

datatype auth_mode = Create | Unlock

text \<open>\<open>handleSubmit\<close>: the password handed to \<open>onAuth\<close>, or \<open>None\<close> when it returns early.\<close>

definition handleSubmit :: "auth_mode \<Rightarrow> js_string \<Rightarrow> js_string \<Rightarrow> js_string option" where
  "handleSubmit mode password confirmPassword =
     (if mode = Create \<and> password \<noteq> confirmPassword then None
      else if mode = Create then
        (if \<not> isValid (validatePasswordStrength password) then None else Some password)
      else if length password < 8 then None
      else Some password)"

section \<open>Index.tsx\<close>

record index_state =
  isAuthenticated :: bool
  masterPassword :: js_string
  authMode :: auth_mode
  authError :: string
  authLoading :: bool
  failedAttempts :: nat
  toasts :: "(string \<times> string) list"

text \<open>The copy of the strength check inside \<open>handleAuth\<close>.\<close>

definition handleAuth_validatePasswordStrength :: "js_string \<Rightarrow> bool" where
  "handleAuth_validatePasswordStrength password =
     (hasUpperCase password \<and> hasLowerCase password \<and> hasNumbers password
      \<and> hasSymbols password \<and> isLongEnough password)"

definition reset_requirements_message :: string where
  "reset_requirements_message =
     ''New vault password must include uppercase letters, lowercase letters, numbers, and symbols (! @ # $ % ^ & * etc.)''"

definition too_many_attempts_message :: string where
  "too_many_attempts_message =
     ''Too many failed attempts. The next password you enter will create a new vault and erase all existing data.''"

definition incorrect_password_message :: "nat \<Rightarrow> string" where
  "incorrect_password_message newFailedAttempts =
     ''Incorrect password. '' @ show_nat (2 - newFailedAttempts) @ '' attempt''
     @ (if 2 - newFailedAttempts = 1 then [] else ''s'')
     @ '' remaining before data reset.''"

definition auth_success :: "js_string \<Rightarrow> index_state \<Rightarrow> index_state" where
  "auth_success password s =
     s\<lparr>masterPassword := password, isAuthenticated := True, failedAttempts := 0,
       toasts := toasts s @
         [if authMode s = Create
          then (''Vault Created'', ''Your secure vault has been created successfully'')
          else (''Vault Unlocked'', ''Welcome back to your secure vault'')],
       authLoading := False\<rparr>"

definition handleAuth ::
  "platform \<Rightarrow> js_string \<Rightarrow> index_state \<times> local_storage \<Rightarrow> index_state \<times> local_storage" where
  "handleAuth P password w =
     (let s = (fst w)\<lparr>authError := [], authLoading := True\<rparr>; st = snd w in
      if authMode s = Unlock then
        if failedAttempts s \<ge> 2 then
          if \<not> handleAuth_validatePasswordStrength password then
            (s\<lparr>authError := reset_requirements_message, authLoading := False\<rparr>, st)
          else
            (s\<lparr>masterPassword := password, isAuthenticated := True, failedAttempts := 0,
               authMode := Unlock,
               toasts := toasts s @
                 [(''New Vault Created'',
                   ''Previous data has been erased and a new secure vault has been created'')],
               authLoading := False\<rparr>,
             clearVault st)
        else
          (case fst (loadVaultData P password st) of
             Inl e \<Rightarrow>
               (let newFailedAttempts = failedAttempts s + 1 in
                 (s\<lparr>failedAttempts := newFailedAttempts,
                    authError :=
                      (if newFailedAttempts \<ge> 2 then too_many_attempts_message
                       else incorrect_password_message newFailedAttempts),
                    authLoading := False\<rparr>,
                  snd (loadVaultData P password st)))
           | Inr vault \<Rightarrow> (auth_success password s, snd (loadVaultData P password st)))
      else (auth_success password s, st))"

definition handleLock :: "index_state \<Rightarrow> index_state" where
  "handleLock s =
     s\<lparr>isAuthenticated := False, masterPassword := [], authError := [],
       failedAttempts := 0, authMode := Unlock,
       toasts := toasts s @ [(''Vault Locked'', ''Your vault has been securely locked'')]\<rparr>"

text \<open>
  What \<open>Index\<close> renders: the vault when \<open>isAuthenticated && masterPassword\<close>, otherwise the
  authentication screen in mode \<open>create\<close> or in mode \<open>unlock\<close> with the failure counter.
\<close>

datatype auth_state = NoVault | Locked nat | Unlocked

definition auth_state_of :: "index_state \<Rightarrow> auth_state" where
  "auth_state_of s =
     (if isAuthenticated s \<and> masterPassword s \<noteq> [] then Unlocked
      else if authMode s = Create then NoVault
      else Locked (failedAttempts s))"


section \<open>SecureVault.tsx\<close>

record vault_state =
  vaultData :: jsval
  loading :: bool
  error :: string





text \<open>\<open>Set.prototype.has\<close> compares with SameValueZero; two parsed objects are never the same.\<close>

fun same_value_zero :: "jsval \<Rightarrow> jsval \<Rightarrow> bool" where
  "same_value_zero JUndefined JUndefined = True"
| "same_value_zero JNull JNull = True"
| "same_value_zero (JBool a) (JBool b) = (a = b)"
| "same_value_zero (JNum a) (JNum b) = (a = b)"
| "same_value_zero (JStr a) (JStr b) = (a = b)"
| "same_value_zero JFun JFun = True"
| "same_value_zero a b = False"

text \<open>\<open>xs.map(k => k.name)\<close>, which throws at the first element that is \<open>null\<close>.\<close>

fun names_of :: "jsval list \<Rightarrow> js_error + jsval list" where
  "names_of [] = Inr []"
| "names_of (k # ks) =
     and_then (js_get k (str ''name'')) (\<lambda>n.
     and_then (names_of ks) (\<lambda>ns. Inr (n # ns)))"

text \<open>\<open>xs.filter(k => !existingNames.has(k.name))\<close>.\<close>

fun filter_new :: "jsval list \<Rightarrow> jsval list \<Rightarrow> js_error + jsval list" where
  "filter_new existingNames [] = Inr []"
| "filter_new existingNames (k # ks) =
     and_then (js_get k (str ''name'')) (\<lambda>n.
     and_then (filter_new existingNames ks) (\<lambda>rest.
       Inr (if list_ex (same_value_zero n) existingNames then rest else k # rest)))"

definition elements :: "jsval \<Rightarrow> js_error + jsval list" where
  "elements v = (case v of JArr xs ps \<Rightarrow> Inr xs | _ \<Rightarrow> Inl TypeError)"

text \<open>
  The \<open>onchange\<close> handler of \<open>handleImportVault\<close> on the text of the chosen file. \<open>Inl\<close> is
  the \<open>catch\<close> branch: the toast ``Import Failed'' is shown and the state is unchanged.
\<close>

definition handleImportVault ::
  "platform \<Rightarrow> js_string \<Rightarrow> js_string \<Rightarrow> vault_state \<Rightarrow> local_storage
     \<Rightarrow> js_error + vault_state" where
  "handleImportVault P file_text password v st =
     and_then (fst (importVault P file_text password st)) (\<lambda>importedData.
     and_then (js_get (vaultData v) (str ''keys'')) (\<lambda>existing.
     and_then (elements existing) (\<lambda>existingKeys.
     and_then (names_of existingKeys) (\<lambda>existingNames.
     and_then (js_get importedData (str ''keys'')) (\<lambda>imported.
     and_then (elements imported) (\<lambda>importedKeys.
     and_then (filter_new existingNames importedKeys) (\<lambda>newKeys.
     and_then (js_get (vaultData v) (str ''settings'')) (\<lambda>prevSettings.
     and_then (js_get importedData (str ''settings'')) (\<lambda>importedSettings.
       Inr (v\<lparr>vaultData :=
              JObj (put (put (spread [] (vaultData v))
                      (str ''keys'') (JArr (existingKeys @ newKeys) []))
                      (str ''settings'')
                      (JObj (spread (spread [] prevSettings) importedSettings)))\<rparr>))))))))))"

section \<open>A platform for evaluating examples\<close>

text \<open>
  An instance of the platform on which the model can be run: a cipher that stores the key
  in front of the plaintext and accepts exactly that key, a key derivation that joins the
  password bytes and the salt, and \<open>JSON.parse\<close> on the few documents of the examples
  below, where it returns what \<open>JSON.parse\<close> returns on them. A call takes at most 65535
  arguments.
\<close>

definition test_pbkdf2 :: "bytes \<Rightarrow> bytes \<Rightarrow> bytes" where
  "test_pbkdf2 password_bytes salt = password_bytes @ salt"

definition test_encrypt :: "bytes \<Rightarrow> bytes \<Rightarrow> bytes \<Rightarrow> bytes" where
  "test_encrypt key iv plaintext = key @ iv @ plaintext"

definition test_decrypt :: "bytes \<Rightarrow> bytes \<Rightarrow> bytes \<Rightarrow> bytes option" where
  "test_decrypt key iv ciphertext =
     (if take (length key + length iv) ciphertext = key @ iv
      then Some (drop (length key + length iv) ciphertext) else None)"

fun strip_prefix :: "'a list \<Rightarrow> 'a list \<Rightarrow> 'a list option" where
  "strip_prefix [] s = Some s"
| "strip_prefix (p # ps) [] = None"
| "strip_prefix (p # ps) (c # cs) = (if p = c then strip_prefix ps cs else None)"

text \<open>A prefix, then the characters of a base64 string up to its closing quote.\<close>

definition quoted_field :: "js_string \<Rightarrow> js_string \<Rightarrow> (js_string \<times> js_string) option" where
  "quoted_field pre s =
     (case strip_prefix pre s of
        None \<Rightarrow> None
      | Some r \<Rightarrow>
          (case dropWhile (\<lambda>c. c \<noteq> 0x22) r of
             [] \<Rightarrow> None
           | q # rest \<Rightarrow>
               if list_all (\<lambda>c. b64_value (unat c) \<noteq> None \<or> c = 0x3D)
                    (takeWhile (\<lambda>c. c \<noteq> 0x22) r)
               then Some (takeWhile (\<lambda>c. c \<noteq> 0x22) r, rest) else None))"

definition test_parse_envelope :: "js_string \<Rightarrow> jsval option" where
  \<open>test_parse_envelope s =
     (case quoted_field (str ''{"data":"'') s of
        None \<Rightarrow> None
      | Some (d, r1) \<Rightarrow>
          (case quoted_field (str '',"salt":"'') r1 of
             None \<Rightarrow> None
           | Some (sa, r2) \<Rightarrow>
               (case quoted_field (str '',"iv":"'') r2 of
                  None \<Rightarrow> None
                | Some (i, r3) \<Rightarrow>
                    if r3 = str ''}''
                    then Some (JObj [(str ''data'', JStr d), (str ''salt'', JStr sa),
                                     (str ''iv'', JStr i)])
                    else None)))\<close>

definition record_named :: "string \<Rightarrow> jsval" where
  "record_named n = JObj [(str ''name'', JStr (str n))]"

text \<open>The JSON documents of the examples.\<close>

definition document_null :: js_string where
  \<open>document_null = str ''null''\<close>

definition document_negative :: js_string where
  \<open>document_negative = str ''{"keys":[],"version":-3}''\<close>

definition document_no_version :: js_string where
  \<open>document_no_version = str ''{"keys":[]}''\<close>

definition document_empty :: js_string where
  \<open>document_empty = str ''{"keys":[],"settings":{"clipboardClearTime":30,"autoLockTime":15,"darkMode":false,"showKeyPreview":false},"version":1}''\<close>

definition document_BC :: js_string where
  \<open>document_BC = str ''{"keys":[{"name":"B"},{"name":"C"}],"settings":{"darkMode":true},"version":1}''\<close>

definition test_parse :: "js_string \<Rightarrow> jsval option" where
  "test_parse s =
     (if s = document_null then Some JNull
      else if s = document_negative then
        Some (JObj [(str ''keys'', JArr [] []), (str ''version'', JNum (- 3))])
      else if s = document_no_version then
        Some (JObj [(str ''keys'', JArr [] [])])
      else if s = document_empty then Some empty_vault
      else if s = document_BC then
        Some (JObj [(str ''keys'', JArr [record_named ''B'', record_named ''C''] []),
                    (str ''settings'', JObj [(str ''darkMode'', JBool True)]),
                    (str ''version'', JNum 1)])
      else test_parse_envelope s)"

definition test_stringify :: "jsval \<Rightarrow> js_string" where
  \<open>test_stringify v =
     (if v = empty_vault then document_empty
      else
        (case v of
           JObj [(k1, JStr d), (k2, JStr sa), (k3, JStr i)] \<Rightarrow>
             str ''{"data":"'' @ d @ str ''","salt":"'' @ sa @ str ''","iv":"'' @ i @ str ''"}''
         | _ \<Rightarrow> str ''null''))\<close>

definition test_platform :: platform where
  "test_platform =
     \<lparr>pbkdf2 = test_pbkdf2, aes_gcm_encrypt = test_encrypt, aes_gcm_decrypt = test_decrypt,
      json_parse = test_parse, json_stringify = test_stringify,
      to_string = (\<lambda>v. Inl TypeError), max_arguments = 65535\<rparr>"

definition test_salt :: bytes where
  "test_salt = [1, 2, 3, 4, 5, 6, 7, 8, 9, 10, 11, 12, 13, 14, 15, 16]"

definition test_iv :: bytes where
  "test_iv = [101, 102, 103, 104, 105, 106, 107, 108, 109, 110, 111, 112]"

text \<open>
  Backup files made under the password \<open>Str0ng!Pass\<close> with the salt and nonce above; their
  plaintexts are \<open>null\<close>, \<open>{"keys":[],"version":-3}\<close>, \<open>{"keys":[]}\<close> and a vault with the
  two records named B and C; and the empty vault as saved under \<open>N3wStr0ng!\<close>.
\<close>

definition backup_null :: js_string where
  \<open>backup_null = str ''{"data":"U3RyMG5nIVBhc3MBAgMEBQYHCAkKCwwNDg8QZWZnaGlqa2xtbm9wbnVsbA==","salt":"AQIDBAUGBwgJCgsMDQ4PEA==","iv":"ZWZnaGlqa2xtbm9w"}''\<close>

definition backup_negative :: js_string where
  \<open>backup_negative = str ''{"data":"U3RyMG5nIVBhc3MBAgMEBQYHCAkKCwwNDg8QZWZnaGlqa2xtbm9weyJrZXlzIjpbXSwidmVyc2lvbiI6LTN9","salt":"AQIDBAUGBwgJCgsMDQ4PEA==","iv":"ZWZnaGlqa2xtbm9w"}''\<close>

definition backup_no_version :: js_string where
  \<open>backup_no_version = str ''{"data":"U3RyMG5nIVBhc3MBAgMEBQYHCAkKCwwNDg8QZWZnaGlqa2xtbm9weyJrZXlzIjpbXX0=","salt":"AQIDBAUGBwgJCgsMDQ4PEA==","iv":"ZWZnaGlqa2xtbm9w"}''\<close>

definition backup_BC :: js_string where
  \<open>backup_BC = str ''{"data":"U3RyMG5nIVBhc3MBAgMEBQYHCAkKCwwNDg8QZWZnaGlqa2xtbm9weyJrZXlzIjpbeyJuYW1lIjoiQiJ9LHsibmFtZSI6IkMifV0sInNldHRpbmdzIjp7ImRhcmtNb2RlIjp0cnVlfSwidmVyc2lvbiI6MX0=","salt":"AQIDBAUGBwgJCgsMDQ4PEA==","iv":"ZWZnaGlqa2xtbm9w"}''\<close>


section \<open>Auxiliary notions\<close>

text \<open>
  The sextets that \<open>btoa\<close> writes before padding, the scalar values of Unicode, and
  \<open>String.prototype.isWellFormed\<close>: no surrogate without its partner.
\<close>

fun b64_sextets :: "nat list \<Rightarrow> nat list" where
  "b64_sextets (a # b # c # rest) =
     [a div 4, (a mod 4) * 16 + b div 16, (b mod 16) * 4 + c div 64, c mod 64] @ b64_sextets rest"
| "b64_sextets [a, b] = [a div 4, (a mod 4) * 16 + b div 16, (b mod 16) * 4]"
| "b64_sextets [a] = [a div 4, (a mod 4) * 16]"
| "b64_sextets [] = []"

definition b64_padding :: "nat list \<Rightarrow> nat" where
  "b64_padding bs = (if length bs mod 3 = 0 then 0 else 3 - length bs mod 3)"

definition is_scalar_value :: "nat \<Rightarrow> bool" where
  "is_scalar_value c = (c < 0x110000 \<and> \<not> is_surrogate c)"

fun well_formed_units :: "nat list \<Rightarrow> bool" where
  "well_formed_units [] = True"
| "well_formed_units [c] = (\<not> is_surrogate c)"
| "well_formed_units (c # d # cs) =
     (if is_high_surrogate c then is_low_surrogate d \<and> well_formed_units cs
      else \<not> is_low_surrogate c \<and> well_formed_units (d # cs))"

definition isWellFormed :: "js_string \<Rightarrow> bool" where
  "isWellFormed s = well_formed_units (map unat s)"

definition starts_with_bom :: "js_string \<Rightarrow> bool" where
  "starts_with_bom s = (case s of [] \<Rightarrow> False | c # _ \<Rightarrow> c = 0xFEFF)"

text \<open>
  The cipher assumption of the round trip, and encryption followed by decryption.
\<close>

definition aead_correct :: "platform \<Rightarrow> bool" where
  "aead_correct P =
     (\<forall>key iv plaintext.
        aes_gcm_decrypt P key iv (aes_gcm_encrypt P key iv plaintext) = Some plaintext)"

definition decrypt_after_encrypt ::
  "platform \<Rightarrow> bytes \<Rightarrow> bytes \<Rightarrow> js_string \<Rightarrow> js_string \<Rightarrow> js_string \<Rightarrow> js_error + js_string" where
  "decrypt_after_encrypt P salt iv plaintext W1 W2 =
     and_then (encryptData P salt iv plaintext W1) (\<lambda>envelope. decryptData P envelope W2)"

text \<open>
  The envelope that \<open>encryptData\<close> returns when no spread call exceeds the argument limit:
  the plaintext's UTF-8 bytes encrypted under the key derived from the password's UTF-8
  bytes and the salt, and the three byte sequences in base64.
\<close>

definition base64 :: "bytes \<Rightarrow> js_string" where
  "base64 bs = map of_nat (b64_encode (map unat bs))"

definition sealed_envelope ::
  "platform \<Rightarrow> bytes \<Rightarrow> bytes \<Rightarrow> js_string \<Rightarrow> js_string \<Rightarrow> jsval" where
  "sealed_envelope P salt iv plaintext password =
     JObj [(str ''data'',
            JStr (base64 (aes_gcm_encrypt P (pbkdf2 P (text_encode password) salt) iv
                            (text_encode plaintext)))),
           (str ''salt'', JStr (base64 salt)),
           (str ''iv'', JStr (base64 iv))]"

definition within_argument_limit ::
  "platform \<Rightarrow> bytes \<Rightarrow> bytes \<Rightarrow> js_string \<Rightarrow> js_string \<Rightarrow> bool" where
  "within_argument_limit P salt iv plaintext password =
     (length (aes_gcm_encrypt P (pbkdf2 P (text_encode password) salt) iv
                (text_encode plaintext)) \<le> max_arguments P
      \<and> length salt \<le> max_arguments P \<and> length iv \<le> max_arguments P)"




text \<open>A vault whose \<open>version\<close> field is a number that is at least 1.\<close>

definition version_at_least_one :: "jsval \<Rightarrow> bool" where
  "version_at_least_one v =
     (case js_get v (str ''version'') of Inr (JNum r) \<Rightarrow> 1 \<le> r | _ \<Rightarrow> False)"

text \<open>A decoded backup that has a record sequence: its \<open>keys\<close> property is an array.\<close>

definition has_record_sequence :: "jsval \<Rightarrow> bool" where
  "has_record_sequence decoded =
     (case js_get decoded (str ''keys'') of Inr (JArr records extra) \<Rightarrow> True | _ \<Rightarrow> False)"

text \<open>
  A record whose properties can be read, and the value of its \<open>name\<close>: reading a property
  of \<open>null\<close> or \<open>undefined\<close> throws.
\<close>

definition readable :: "jsval \<Rightarrow> bool" where
  "readable k = (k \<noteq> JNull \<and> k \<noteq> JUndefined)"

definition name_of :: "jsval \<Rightarrow> jsval" where
  "name_of k = (case js_get k (str ''name'') of Inr n \<Rightarrow> n | Inl e \<Rightarrow> JUndefined)"

text \<open>
  The envelope of the example backups with its \<open>data\<close> field left open, and strings of
  ASCII characters only.
\<close>

definition envelope_of :: "string \<Rightarrow> jsval" where
  "envelope_of d =
     JObj [(str ''data'', JStr (str d)), (str ''salt'', JStr (str ''AQIDBAUGBwgJCgsMDQ4PEA=='')),
           (str ''iv'', JStr (str ''ZWZnaGlqa2xtbm9w''))]"

definition ascii :: "js_string \<Rightarrow> bool" where
  "ascii s = list_all (\<lambda>c. c < 0x80) s"

text \<open>The \<open>data\<close> fields of the example backups.\<close>

definition data_null :: string where
  "data_null = ''U3RyMG5nIVBhc3MBAgMEBQYHCAkKCwwNDg8QZWZnaGlqa2xtbm9wbnVsbA==''"

definition data_negative :: string where
  "data_negative = ''U3RyMG5nIVBhc3MBAgMEBQYHCAkKCwwNDg8QZWZnaGlqa2xtbm9weyJrZXlzIjpbXSwidmVyc2lvbiI6LTN9''"

definition data_no_version :: string where
  "data_no_version = ''U3RyMG5nIVBhc3MBAgMEBQYHCAkKCwwNDg8QZWZnaGlqa2xtbm9weyJrZXlzIjpbXX0=''"

definition data_BC :: string where
  "data_BC = ''U3RyMG5nIVBhc3MBAgMEBQYHCAkKCwwNDg8QZWZnaGlqa2xtbm9weyJrZXlzIjpbeyJuYW1lIjoiQiJ9LHsibmFtZSI6IkMifV0sInNldHRpbmdzIjp7ImRhcmtNb2RlIjp0cnVlfSwidmVyc2lvbiI6MX0=''"

definition data_empty :: string where
  "data_empty = ''TjN3U3RyMG5nIQECAwQFBgcICQoLDA0ODxBlZmdoaWprbG1ub3B7ImtleXMiOltdLCJzZXR0aW5ncyI6eyJjbGlwYm9hcmRDbGVhclRpbWUiOjMwLCJhdXRvTG9ja1RpbWUiOjE1LCJkYXJrTW9kZSI6ZmFsc2UsInNob3dLZXlQcmV2aWV3IjpmYWxzZX0sInZlcnNpb24iOjF9''"

text \<open>The authentication screen in mode \<open>unlock\<close> after \<open>n\<close> failures, and in mode \<open>create\<close>.\<close>

definition example_locked :: "nat \<Rightarrow> index_state" where
  "example_locked n =
     \<lparr>isAuthenticated = False, masterPassword = [], authMode = Unlock, authError = [],
      authLoading = False, failedAttempts = n, toasts = []\<rparr>"


text \<open>
  An unlocked vault with the records named A and B and settings of its own, and an
  envelope whose \<open>salt\<close> is not base64.
\<close>

definition vault_AB :: jsval where
  "vault_AB =
     JObj [(str ''keys'', JArr [record_named ''A'', record_named ''B''] []),
           (str ''settings'',
            JObj [(str ''clipboardClearTime'', JNum 60), (str ''autoLockTime'', JNum 5),
                  (str ''darkMode'', JBool False), (str ''showKeyPreview'', JBool True)]),
           (str ''version'', JNum 1)]"

section \<open>Base64 and text encoding\<close>


lemma unat_byte_less: "unat (b :: 8 word) < 256"
  using unsigned_less [of b, where 'a = nat] by simp

lemma unat_unit_less: "unat (c :: 16 word) < 65536"
  using unsigned_less [of c, where 'a = nat] by simp

lemma map_unat_of_nat16:
  "\<forall>x \<in> set xs. x < 65536 \<Longrightarrow> map unat (map of_nat xs :: 16 word list) = xs"
  by (induction xs) (simp_all add: unat_of_nat)

lemma map_unat_of_nat8:
  "\<forall>x \<in> set xs. x < 256 \<Longrightarrow> map unat (map of_nat xs :: 8 word list) = xs"
  by (induction xs) (simp_all add: unat_of_nat)

lemma map_of_nat_unat8: "map of_nat (map unat bs) = (bs :: 8 word list)"
  by (induction bs) simp_all

lemma unat_unit_of_byte: "unat (of_nat (unat (b :: 8 word)) :: 16 word) = unat b"
  using unat_byte_less [of b] by (simp only: unat_of_nat) simp

lemma byte_unit_byte: "(of_nat (unat (of_nat (unat b) :: 16 word)) :: 8 word) = b"
proof -
  have "unat (of_nat (unat (of_nat (unat b) :: 16 word)) :: 8 word) = unat b"
    using unat_byte_less [of b] by (simp only: unat_unit_of_byte unat_of_nat) simp
  then show ?thesis by (simp only: word_unat_eq_iff)
qed

lemma charCodes_fromCharCode: "charCodes (fromCharCode bs) = bs"
  unfolding charCodes_def fromCharCode_def
  by (induction bs) (simp_all only: list.map byte_unit_byte)

lemma b64_value_digit: "i < 64 \<Longrightarrow> b64_value (b64_digit i) = Some i"
  by (auto simp: b64_value_def b64_digit_def)

lemma b64_digit_not_pad: "i < 64 \<Longrightarrow> b64_digit i \<noteq> 0x3D"
  by (auto simp: b64_digit_def)

lemma b64_digit_not_space: "\<not> ascii_whitespace (b64_digit i)"
  by (auto simp: b64_digit_def ascii_whitespace_def)

lemma b64_digit_less: "b64_digit i < 128"
  by (auto simp: b64_digit_def)

lemma b64_sextets_less:
  "\<forall>b \<in> set bs. b < 256 \<Longrightarrow> \<forall>x \<in> set (b64_sextets bs). x < 64"
  by (induction bs rule: b64_sextets.induct) auto

lemma b64_encode_split:
  "b64_encode bs = map b64_digit (b64_sextets bs) @ replicate (b64_padding bs) 0x3D"
  by (induction bs rule: b64_sextets.induct) (simp_all add: b64_padding_def numeral_2_eq_2)

lemma length_b64_encode: "length (b64_encode bs) mod 4 = 0"
  by (induction bs rule: b64_encode.induct) simp_all

lemma strip_padding_replicate:
  assumes "length (xs @ replicate k 0x3D) mod 4 = 0" and "k \<le> 2" and "\<forall>x \<in> set xs. x \<noteq> 0x3D"
  shows "strip_padding (xs @ replicate k 0x3D) = xs"
proof -
  consider "k = 0" | "k = 1" | "k = 2" using assms(2) by linarith
  then show ?thesis
  proof cases
    case 1
    then show ?thesis using assms(3) by (cases xs rule: rev_cases) (auto simp: strip_padding_def)
  next
    case 2
    then show ?thesis using assms(1,3)
      by (cases xs rule: rev_cases) (auto simp: strip_padding_def butlast_append)
  next
    case 3
    then have "replicate k (0x3D::nat) = [0x3D, 0x3D]" by (simp add: numeral_2_eq_2)
    then show ?thesis using assms(1) by (simp add: strip_padding_def butlast_append)
  qed
qed

lemma b64_decode_sextets:
  "\<forall>b \<in> set bs. b < 256 \<Longrightarrow> b64_decode (b64_sextets bs) = bs"
  by (induction bs rule: b64_sextets.induct) auto

lemma b64_padding_le: "b64_padding bs \<le> 2"
  by (simp add: b64_padding_def) presburger

lemma b64_encode_elems: "\<forall>x \<in> set (b64_encode bs). x < 128 \<and> \<not> ascii_whitespace x"
  by (induction bs rule: b64_encode.induct)
     (simp_all add: b64_digit_less b64_digit_not_space, simp_all add: ascii_whitespace_def)

lemma length_b64_sextets: "length (b64_sextets bs) mod 4 \<noteq> 1"
  by (induction bs rule: b64_sextets.induct) simp_all

lemma btoa_fromCharCode:
  "btoa (fromCharCode bs) = Inr (map of_nat (b64_encode (map unat bs)))"
proof -
  have a: "map unat (fromCharCode bs) = map unat bs"
    unfolding fromCharCode_def by (induction bs) (simp_all only: list.map unat_unit_of_byte)
  have "\<not> list_ex (\<lambda>c. 0xFF < unat c) (fromCharCode bs)"
  proof -
    have "\<forall>x \<in> set (map unat (fromCharCode bs)). x \<le> 0xFF"
      unfolding a using unat_byte_less by (auto simp: less_Suc_eq_le [symmetric])
    then show ?thesis by (auto simp: list_ex_iff)
  qed
  then show ?thesis by (simp add: btoa_def a)
qed

lemma atob_b64_encode:
  "atob (map of_nat (b64_encode (map unat (bs :: bytes)))) = Inr (fromCharCode bs)"
proof -
  let ?ns = "map unat bs"
  let ?sx = "b64_sextets ?ns"
  have bytes: "\<forall>b \<in> set ?ns. b < 256" using unat_byte_less by auto
  have sx: "\<forall>x \<in> set ?sx. x < 64" using b64_sextets_less [OF bytes] .
  have u: "map unat (map of_nat (b64_encode ?ns) :: js_string) = b64_encode ?ns"
    using b64_encode_elems [of ?ns] by (intro map_unat_of_nat16) auto
  have f: "filter (\<lambda>c. \<not> ascii_whitespace c) (b64_encode ?ns) = b64_encode ?ns"
    using b64_encode_elems [of ?ns] by (simp add: filter_id_conv)
  have nopad: "\<forall>x \<in> set (map b64_digit ?sx). x \<noteq> 0x3D"
    using sx b64_digit_not_pad by auto
  have s: "strip_padding (b64_encode ?ns) = map b64_digit ?sx"
    unfolding b64_encode_split [of ?ns]
    using length_b64_encode [of ?ns] b64_padding_le [of ?ns] nopad
    by (intro strip_padding_replicate) (simp_all add: b64_encode_split [symmetric])
  have v: "map (\<lambda>c. the (b64_value c)) (map b64_digit ?sx) = ?sx"
    using sx by (simp add: map_idI b64_value_digit)
  have ok: "\<not> list_ex (\<lambda>c. b64_value c = None) (map b64_digit ?sx)"
    using sx by (auto simp: list_ex_iff b64_value_digit)
  have len: "length (map b64_digit ?sx) mod 4 \<noteq> 1"
    using length_b64_sextets [of ?ns] by simp
  have d: "b64_decode ?sx = ?ns" using b64_decode_sextets [OF bytes] .
  have r: "map of_nat (b64_decode ?sx) = fromCharCode bs"
    unfolding d fromCharCode_def by (simp only: map_map o_def)
  show ?thesis
    unfolding atob_def u f s Let_def v r using ok len by (simp only: simp_thms if_False)
qed

lemma atob_btoa_bytes:
  "btoa (fromCharCode bs) = Inr e \<Longrightarrow> map_sum id charCodes (atob e) = Inr bs"
  by (auto simp: btoa_fromCharCode atob_b64_encode charCodes_fromCharCode)


lemma utf8_decode_ascii:
  "b \<le> 0x7F \<Longrightarrow> utf8_decode utf8_initial (b # rest) = b # utf8_decode utf8_initial rest"
  by (simp add: utf8_lead_def utf8_initial_def)

lemma utf8_decode_two:
  assumes "0xC2 \<le> b1" "b1 \<le> 0xDF" "0x80 \<le> b2" "b2 \<le> 0xBF"
  shows "utf8_decode utf8_initial (b1 # b2 # rest) =
           (b1 mod 0x20 * 0x40 + b2 mod 0x40) # utf8_decode utf8_initial rest"
  using assms by (simp add: utf8_lead_def utf8_initial_def)

lemma utf8_decode_three:
  assumes "0xE0 \<le> b1" "b1 \<le> 0xEF"
    and "(if b1 = 0xE0 then 0xA0 else 0x80) \<le> b2" "b2 \<le> (if b1 = 0xED then 0x9F else 0xBF)"
    and "0x80 \<le> b3" "b3 \<le> 0xBF"
  shows "utf8_decode utf8_initial (b1 # b2 # b3 # rest) =
           ((b1 mod 0x10 * 0x40 + b2 mod 0x40) * 0x40 + b3 mod 0x40)
           # utf8_decode utf8_initial rest"
  using assms by (simp add: utf8_lead_def utf8_initial_def)

lemma utf8_decode_four:
  assumes "0xF0 \<le> b1" "b1 \<le> 0xF4"
    and "(if b1 = 0xF0 then 0x90 else 0x80) \<le> b2" "b2 \<le> (if b1 = 0xF4 then 0x8F else 0xBF)"
    and "0x80 \<le> b3" "b3 \<le> 0xBF" "0x80 \<le> b4" "b4 \<le> 0xBF"
  shows "utf8_decode utf8_initial (b1 # b2 # b3 # b4 # rest) =
           (((b1 mod 0x08 * 0x40 + b2 mod 0x40) * 0x40 + b3 mod 0x40) * 0x40 + b4 mod 0x40)
           # utf8_decode utf8_initial rest"
  using assms by (simp add: utf8_lead_def utf8_initial_def)

lemma trail_byte:
  "0x80 \<le> 0x80 + x mod (0x40::nat)" "0x80 + x mod (0x40::nat) \<le> 0xBF"
  "(0x80 + x mod 0x40) mod 0x40 = x mod (0x40::nat)"
proof -
  have "x mod 0x40 < 0x40" by simp
  then show "0x80 + x mod (0x40::nat) \<le> 0xBF" by linarith
  show "(0x80 + x mod 0x40) mod 0x40 = x mod (0x40::nat)"
    by (simp add: mod_add_left_eq [symmetric, of "0x80"])
qed simp

lemma lead_mask:
  "x < 0x20 \<Longrightarrow> (0xC0 + x) mod 0x20 = (x::nat)"
  "x < 0x10 \<Longrightarrow> (0xE0 + x) mod 0x10 = (x::nat)"
  "x < 0x08 \<Longrightarrow> (0xF0 + x) mod 0x08 = (x::nat)"
  by (simp_all add: mod_add_left_eq [symmetric, of "0xC0"] mod_add_left_eq [symmetric, of "0xE0"]
        mod_add_left_eq [symmetric, of "0xF0"])

lemma regroup:
  "(c div 0x1000) * 0x40 + (c div 0x40) mod 0x40 = c div (0x40::nat)"
  "(c div 0x40000) * 0x40 + (c div 0x1000) mod 0x40 = c div (0x1000::nat)"
proof -
  have "c div 0x1000 = (c div 0x40) div 0x40" by (simp add: div_mult2_eq [symmetric])
  then show "(c div 0x1000) * 0x40 + (c div 0x40) mod 0x40 = c div (0x40::nat)" by simp
  have "c div 0x40000 = (c div 0x1000) div 0x40" by (simp add: div_mult2_eq [symmetric])
  then show "(c div 0x40000) * 0x40 + (c div 0x1000) mod 0x40 = c div (0x1000::nat)" by simp
qed

lemma mod_in_block:
  assumes "k * 0x40 \<le> (x::nat)" "x < k * 0x40 + n" "n \<le> 0x40"
  shows "x mod 0x40 < n"
proof -
  obtain y where y: "x = k * 0x40 + y" using assms(1) le_Suc_ex by blast
  then have "y < n" using assms(2) by simp
  moreover have "x mod 0x40 = y mod 0x40" unfolding y by simp
  ultimately show ?thesis using assms(3) by simp
qed

lemma utf8_decode_encoded:
  assumes "is_scalar_value c"
  shows "utf8_decode utf8_initial (utf8_of_code_point c @ rest) = c # utf8_decode utf8_initial rest"
proof -
  consider "c < 0x80" | "0x80 \<le> c" "c < 0x800" | "0x800 \<le> c" "c < 0x10000"
    | "0x10000 \<le> c" "c < 0x110000"
    using assms by (auto simp: is_scalar_value_def) linarith
  then show ?thesis
  proof cases
    case 1
    then have "c \<le> 0x7F" by linarith
    then show ?thesis using 1 by (simp add: utf8_of_code_point_def utf8_decode_ascii del: utf8_decode.simps)
  next
    case 2
    have r: "0xC2 \<le> 0xC0 + c div 0x40" "0xC0 + c div 0x40 \<le> 0xDF" "c div 0x40 < 0x20"
      using 2 by linarith+
    have "utf8_decode utf8_initial ((0xC0 + c div 0x40) # (0x80 + c mod 0x40) # rest) =
            c # utf8_decode utf8_initial rest"
      by (simp only: utf8_decode_two [OF r(1,2) trail_byte(1,2)] trail_byte(3) lead_mask(1) [OF r(3)])
         simp
    then show ?thesis using 2 by (simp add: utf8_of_code_point_def del: utf8_decode.simps)
  next
    case 3
    let ?b1 = "0xE0 + c div 0x1000" and ?b2 = "0x80 + (c div 0x40) mod 0x40"
    have ns: "c < 0xD800 \<or> 0xDFFF < c"
      using assms by (auto simp: is_scalar_value_def is_surrogate_def is_high_surrogate_def
          is_low_surrogate_def)
    have r: "0xE0 \<le> ?b1" "?b1 \<le> 0xEF" "c div 0x1000 < 0x10" using 3 by linarith+
    have lo: "(if ?b1 = 0xE0 then 0xA0 else 0x80) \<le> ?b2"
    proof (cases "?b1 = 0xE0")
      case True
      then have "c < 0x1000" by linarith
      then have "(c div 0x40) mod 0x40 = c div 0x40" by simp
      moreover have "0x20 \<le> c div 0x40" using 3 by linarith
      ultimately show ?thesis using True by simp
    qed simp
    have hi: "?b2 \<le> (if ?b1 = 0xED then 0x9F else 0xBF)"
    proof (cases "?b1 = 0xED")
      case True
      then have "0xD000 \<le> c" "c < 0xE000" by linarith+
      with ns have "0xD000 \<le> c" "c < 0xD800" by linarith+
      then have "0x340 \<le> c div 0x40" "c div 0x40 < 0x360" by linarith+
      then have "(c div 0x40) mod 0x40 < 0x20" by (intro mod_in_block [where k = 13]) simp_all
      then show ?thesis using True by simp
    next
      case False
      then show ?thesis using trail_byte(2) [of "c div 0x40"] by simp
    qed
    have "utf8_decode utf8_initial (?b1 # ?b2 # (0x80 + c mod 0x40) # rest) =
            c # utf8_decode utf8_initial rest"
      by (simp only: utf8_decode_three [OF r(1,2) lo hi trail_byte(1,2)] trail_byte(3)
            lead_mask(2) [OF r(3)] regroup) simp
    then show ?thesis using 3 by (simp add: utf8_of_code_point_def del: utf8_decode.simps)
  next
    case 4
    let ?b1 = "0xF0 + c div 0x40000" and ?b2 = "0x80 + (c div 0x1000) mod 0x40"
    have r: "0xF0 \<le> ?b1" "?b1 \<le> 0xF4" "c div 0x40000 < 0x08" using 4 by linarith+
    have lo: "(if ?b1 = 0xF0 then 0x90 else 0x80) \<le> ?b2"
    proof (cases "?b1 = 0xF0")
      case True
      then have "c < 0x40000" by linarith
      then have "c div 0x1000 < 0x40" by linarith
      then have "(c div 0x1000) mod 0x40 = c div 0x1000" by simp
      moreover have "0x10 \<le> c div 0x1000" using 4 by linarith
      ultimately show ?thesis using True by simp
    qed simp
    have hi: "?b2 \<le> (if ?b1 = 0xF4 then 0x8F else 0xBF)"
    proof (cases "?b1 = 0xF4")
      case True
      then have "0x100000 \<le> c" by linarith
      then have "0x100 \<le> c div 0x1000" "c div 0x1000 < 0x110" using 4 by linarith+
      then have "(c div 0x1000) mod 0x40 < 0x10" by (intro mod_in_block [where k = 4]) simp_all
      then show ?thesis using True by simp
    next
      case False
      then show ?thesis using trail_byte(2) [of "c div 0x1000"] by simp
    qed
    have "utf8_decode utf8_initial
            (?b1 # ?b2 # (0x80 + (c div 0x40) mod 0x40) # (0x80 + c mod 0x40) # rest) =
            c # utf8_decode utf8_initial rest"
      by (simp only: utf8_decode_four [OF r(1,2) lo hi trail_byte(1,2) trail_byte(1,2)]
            trail_byte(3) lead_mask(3) [OF r(3)] regroup) simp
    then show ?thesis using 4 by (simp add: utf8_of_code_point_def del: utf8_decode.simps)
  qed
qed

lemma map_of_nat_unat16: "map of_nat (map unat s) = (s :: js_string)"
  by (induction s) simp_all

lemma surrogate_pair_scalar:
  assumes "is_high_surrogate c" "is_low_surrogate d"
  shows "is_scalar_value (0x10000 + (c - 0xD800) * 0x400 + (d - 0xDC00))"
    and "utf16_of_code_point (0x10000 + (c - 0xD800) * 0x400 + (d - 0xDC00)) = [c, d]"
proof -
  obtain x y where c: "c = 0xD800 + x" and d: "d = 0xDC00 + y" and x: "x < 0x400" and y: "y < 0x400"
  proof
    show "c = 0xD800 + (c - 0xD800)" "d = 0xDC00 + (d - 0xDC00)"
      "c - 0xD800 < 0x400" "d - 0xDC00 < 0x400"
      using assms by (auto simp: is_high_surrogate_def is_low_surrogate_def)
  qed
  have v: "x * 0x400 + y < 0x100000" using x y by linarith
  then show "is_scalar_value (0x10000 + (c - 0xD800) * 0x400 + (d - 0xDC00))"
    by (simp add: c d is_scalar_value_def is_surrogate_def is_high_surrogate_def
          is_low_surrogate_def)
  have "(x * 0x400 + y) div 0x400 = x" "(x * 0x400 + y) mod 0x400 = y" using y by simp_all
  then show "utf16_of_code_point (0x10000 + (c - 0xD800) * 0x400 + (d - 0xDC00)) = [c, d]"
    by (simp add: c d utf16_of_code_point_def)
qed

lemma unit_scalar:
  "c < 0x10000 \<Longrightarrow> is_scalar_value (if is_surrogate c then 0xFFFD else c)"
  by (simp add: is_scalar_value_def is_surrogate_def is_high_surrogate_def is_low_surrogate_def)

lemma scalar_values_scalar:
  "\<forall>c \<in> set cs. c < 0x10000 \<Longrightarrow> \<forall>v \<in> set (scalar_values cs). is_scalar_value v"
proof (induction cs rule: scalar_values.induct)
  case (3 c d cs)
  then show ?case
    using surrogate_pair_scalar(1) [of c d] unit_scalar [of c] by (simp del: One_nat_def)
qed (simp_all add: unit_scalar)

lemma utf16_scalar_values:
  "well_formed_units cs \<Longrightarrow> \<forall>c \<in> set cs. c < 0x10000 \<Longrightarrow>
     concat (map utf16_of_code_point (scalar_values cs)) = cs"
proof (induction cs rule: scalar_values.induct)
  case 1
  then show ?case by simp
next
  case (2 c)
  then show ?case by (simp add: utf16_of_code_point_def)
next
  case (3 c d cs)
  show ?case
  proof (cases "is_high_surrogate c")
    case True
    with 3 show ?thesis using surrogate_pair_scalar(2) [of c d] by simp
  next
    case False
    with 3 show ?thesis by (simp add: utf16_of_code_point_def is_surrogate_def)
  qed
qed

lemma utf8_decode_concat:
  "\<forall>v \<in> set vs. is_scalar_value v \<Longrightarrow>
     utf8_decode utf8_initial (concat (map utf8_of_code_point vs)) = vs"
proof (induction vs)
  case Nil
  show ?case by (simp add: utf8_initial_def)
next
  case (Cons v vs)
  then show ?case by (simp add: utf8_decode_encoded del: utf8_decode.simps)
qed

lemma utf8_of_code_point_bytes:
  assumes "is_scalar_value c"
  shows "\<forall>b \<in> set (utf8_of_code_point c). b < 256"
proof -
  have t: "\<And>x. 0x80 + x mod (0x40::nat) < 256" using trail_byte(2) by (simp add: le_less_trans)
  have "c < 0x110000" using assms by (simp add: is_scalar_value_def)
  then have "c < 0x800 \<longrightarrow> 0xC0 + c div 0x40 < 256" "c < 0x10000 \<longrightarrow> 0xE0 + c div 0x1000 < 256"
    "0xF0 + c div 0x40000 < 256" by linarith+
  then show ?thesis using t by (auto simp: utf8_of_code_point_def)
qed

lemma strip_bom_scalar_values:
  assumes "cs = [] \<or> hd cs \<noteq> 0xFEFF"
  shows "strip_bom (scalar_values cs) = scalar_values cs"
proof (cases cs rule: scalar_values.cases)
  case (3 c d rest)
  then show ?thesis using assms by (auto simp: strip_bom_def)
qed (use assms in \<open>auto simp: strip_bom_def\<close>)

section \<open>Encryption followed by decryption\<close>

lemma text_decode_encode:
  "text_decode (text_encode s) =
     map of_nat (concat (map utf16_of_code_point (strip_bom (scalar_values (map unat s)))))"
proof -
  let ?vs = "scalar_values (map unat s)"
  have sc: "\<forall>v \<in> set ?vs. is_scalar_value v"
    using unat_unit_less by (intro scalar_values_scalar) auto
  then have "\<forall>b \<in> set (concat (map utf8_of_code_point ?vs)). b < 256"
    using utf8_of_code_point_bytes by auto
  then have "map unat (map of_nat (concat (map utf8_of_code_point ?vs)) :: bytes) =
               concat (map utf8_of_code_point ?vs)"
    by (rule map_unat_of_nat8)
  then show ?thesis
    unfolding text_decode_def text_encode_def by (simp only: utf8_decode_concat [OF sc])
qed

lemma text_roundtrip:
  assumes "isWellFormed s" "\<not> starts_with_bom s"
  shows "text_decode (text_encode s) = s"
proof -
  have "map unat s = [] \<or> hd (map unat s) \<noteq> 0xFEFF"
    using assms(2) by (cases s) (auto simp: starts_with_bom_def word_unat_eq_iff)
  then have "strip_bom (scalar_values (map unat s)) = scalar_values (map unat s)"
    by (rule strip_bom_scalar_values)
  moreover have "concat (map utf16_of_code_point (scalar_values (map unat s))) = map unat s"
    using assms(1) unat_unit_less by (intro utf16_scalar_values) (auto simp: isWellFormed_def)
  ultimately show ?thesis
    unfolding text_decode_encode by (simp only: map_of_nat_unat16)
qed

lemma js_get_envelope:
  "js_get (JObj [(str ''data'', d), (str ''salt'', s), (str ''iv'', i)]) (str ''data'') = Inr d"
  "js_get (JObj [(str ''data'', d), (str ''salt'', s), (str ''iv'', i)]) (str ''salt'') = Inr s"
  "js_get (JObj [(str ''data'', d), (str ''salt'', s), (str ''iv'', i)]) (str ''iv'') = Inr i"
  by (simp_all add: lookup_def str_def)

lemma btoa_spread:
  "length bs \<le> max_arguments P \<Longrightarrow>
     and_then (fromCharCode_spread P bs) btoa = Inr (base64 bs)"
  by (simp add: fromCharCode_spread_def and_then_def btoa_fromCharCode base64_def)

lemma encryptData_eq:
  assumes "within_argument_limit P salt iv plaintext password"
  shows "encryptData P salt iv plaintext password =
           Inr (sealed_envelope P salt iv plaintext password)"
  using assms
  by (simp add: encryptData_def Let_def within_argument_limit_def sealed_envelope_def
        deriveKey_def fromCharCode_spread_def and_then_def btoa_fromCharCode base64_def)

lemma encryptData_too_large:
  assumes "max_arguments P <
             length (aes_gcm_encrypt P (pbkdf2 P (text_encode password) salt) iv
                       (text_encode plaintext))"
  shows "encryptData P salt iv plaintext password = Inl RangeError"
  using assms
  by (simp add: encryptData_def Let_def deriveKey_def fromCharCode_spread_def and_then_def)

lemma atob_field_b64:
  "js_get envelope k = Inr (JStr (base64 bs)) \<Longrightarrow> atob_field P envelope k = Inr bs"
  by (simp add: atob_field_def and_then_def atob_b64_encode charCodes_fromCharCode base64_def)

lemma decryptData_sealed:
  "decryptData P (sealed_envelope P salt iv plaintext W1) W2 =
     (case aes_gcm_decrypt P (pbkdf2 P (text_encode W2) salt) iv
             (aes_gcm_encrypt P (pbkdf2 P (text_encode W1) salt) iv (text_encode plaintext)) of
        None \<Rightarrow> Inl OperationError
      | Some decryptedData \<Rightarrow> Inr (text_decode decryptedData))"
  by (simp add: and_then_def decryptData_def atob_field_b64 js_get_envelope sealed_envelope_def
        deriveKey_def del: js_get.simps)

lemma decrypt_after_encrypt_eq:
  assumes "within_argument_limit P salt iv plaintext W1"
  shows "decrypt_after_encrypt P salt iv plaintext W1 W2 =
     (case aes_gcm_decrypt P (pbkdf2 P (text_encode W2) salt) iv
             (aes_gcm_encrypt P (pbkdf2 P (text_encode W1) salt) iv (text_encode plaintext)) of
        None \<Rightarrow> Inl OperationError
      | Some decryptedData \<Rightarrow> Inr (text_decode decryptedData))"
  unfolding decrypt_after_encrypt_def encryptData_eq [OF assms]
  by (simp add: and_then_def decryptData_sealed)

lemma decrypt_after_encrypt_too_large:
  assumes "max_arguments P <
             length (aes_gcm_encrypt P (pbkdf2 P (text_encode W1) salt) iv
                       (text_encode plaintext))"
  shows "decrypt_after_encrypt P salt iv plaintext W1 W2 = Inl RangeError"
  by (simp add: decrypt_after_encrypt_def encryptData_too_large [OF assms] and_then_def)

lemma aead_correct_test: "aead_correct test_platform"
  by (simp add: aead_correct_def test_platform_def test_encrypt_def test_decrypt_def)

lemma isWellFormed_empty: "isWellFormed [] \<and> \<not> starts_with_bom []"
  by (simp add: isWellFormed_def starts_with_bom_def)

lemma text_bom: "text_decode (text_encode [0xFEFF]) = []"
  by (simp add: text_decode_encode strip_bom_def is_surrogate_def is_high_surrogate_def
        is_low_surrogate_def)

lemma text_lone: "text_decode (text_encode [0xD800]) = [0xFFFD]"
  by (simp add: text_decode_encode strip_bom_def is_surrogate_def is_high_surrogate_def
        is_low_surrogate_def utf16_of_code_point_def)

section \<open>The vault store\<close>

lemma str_distinct_fields:
  "str ''keys'' \<noteq> str ''settings''" "str ''keys'' \<noteq> str ''version''"
  "str ''settings'' \<noteq> str ''version''" "str ''settings'' \<noteq> str ''keys''"
  "str ''version'' \<noteq> str ''keys''" "str ''version'' \<noteq> str ''settings''"
  by (simp_all add: str_def)

lemma loadVaultData_absent:
  "st STORAGE_KEY = None \<Longrightarrow> loadVaultData P p st = (Inr empty_vault, st)"
  by (simp add: loadVaultData_def)

lemma loadVaultData_storage: "snd (loadVaultData P p st) = st"
  by (simp add: loadVaultData_def split: option.splits sum.splits)

lemma empty_vault_fields:
  "js_get empty_vault (str ''keys'') = Inr (JArr [] [])"
  "js_get empty_vault (str ''settings'') = Inr (JObj DEFAULT_SETTINGS)"
  "js_get empty_vault (str ''version'') = Inr (JNum 1)"
  by (simp_all add: empty_vault_def lookup_def str_distinct_fields)

text \<open>
  Claim C5. When nothing is stored under the vault's key, \<open>vaultExists\<close> is false and
  \<open>loadVaultData\<close> returns, for every password, the vault with no records, the default
  settings (clipboard clear 30 seconds, auto-lock 15 minutes, dark mode off, key preview
  off) and version 1, and leaves the storage as it was.
\<close>

theorem first_run_empty_vault:
  assumes "st STORAGE_KEY = None"
  shows "\<not> vaultExists st
         \<and> loadVaultData P p st = (Inr empty_vault, st)
         \<and> js_get empty_vault (str ''keys'') = Inr (JArr [] [])
         \<and> js_get empty_vault (str ''settings'') =
             Inr (JObj [(str ''clipboardClearTime'', JNum 30), (str ''autoLockTime'', JNum 15),
                        (str ''darkMode'', JBool False), (str ''showKeyPreview'', JBool False)])
         \<and> js_get empty_vault (str ''version'') = Inr (JNum 1)"
  using assms
  by (simp add: vaultExists_def loadVaultData_absent empty_vault_fields DEFAULT_SETTINGS_def
        del: js_get.simps)

theorem first_run_empty_vault_witness:
  "\<not> vaultExists Map.empty
   \<and> loadVaultData test_platform (str ''anyPassword'') Map.empty = (Inr empty_vault, Map.empty)"
  using first_run_empty_vault [of Map.empty test_platform "str ''anyPassword''"] by simp

section \<open>The example platform and backups\<close>

lemma ascii_units: "ascii s \<Longrightarrow> \<forall>c \<in> set (map unat s). c < 0x80"
  by (auto simp: ascii_def list_all_iff word_less_nat_alt)

lemma ascii_scalar_values: "\<forall>c \<in> set cs. c < 0x80 \<Longrightarrow> scalar_values cs = cs"
  by (induction cs rule: scalar_values.induct)
     (simp_all add: is_surrogate_def is_high_surrogate_def is_low_surrogate_def)

lemma ascii_utf8: "\<forall>c \<in> set cs. c < 0x80 \<Longrightarrow> concat (map utf8_of_code_point cs) = cs"
  by (induction cs) (simp_all add: utf8_of_code_point_def)

lemma ascii_text_encode: "ascii s \<Longrightarrow> text_encode s = charCodes s"
proof -
  assume "ascii s"
  then have a: "\<forall>c \<in> set (map unat s). c < 0x80" by (rule ascii_units)
  have "concat (map utf8_of_code_point (scalar_values (map unat s))) = map unat s"
    by (simp only: ascii_scalar_values [OF a] ascii_utf8 [OF a])
  then show ?thesis
    unfolding text_encode_def charCodes_def by (simp only: map_map o_def)
qed

lemma ascii_well_formed: "\<forall>c \<in> set cs. c < 0x80 \<Longrightarrow> well_formed_units cs"
  by (induction cs rule: well_formed_units.induct)
     (simp_all add: is_surrogate_def is_high_surrogate_def is_low_surrogate_def)

lemma ascii_text_decode: "ascii s \<Longrightarrow> text_decode (charCodes s) = s"
proof -
  assume a: "ascii s"
  have "isWellFormed s" using ascii_units [OF a] by (simp add: isWellFormed_def ascii_well_formed)
  moreover have "\<not> starts_with_bom s" using a by (cases s) (auto simp: starts_with_bom_def ascii_def)
  ultimately show ?thesis using text_roundtrip [of s] ascii_text_encode [OF a] by simp
qed

lemma test_platform_fields:
  "pbkdf2 test_platform = test_pbkdf2" "aes_gcm_encrypt test_platform = test_encrypt"
  "aes_gcm_decrypt test_platform = test_decrypt" "json_parse test_platform = test_parse"
  "json_stringify test_platform = test_stringify"
  by (simp_all add: test_platform_def)

lemma test_decrypt_own_key: "test_decrypt key iv (key @ iv @ plaintext) = Some plaintext"
  by (simp add: test_decrypt_def)

lemma salt_envelope_of:
  "atob_field test_platform (envelope_of d) (str ''salt'') = Inr test_salt"
  by (simp add: envelope_of_def atob_field_def and_then_def lookup_def
        atob_def strip_padding_def ascii_whitespace_def b64_value_def Let_def charCodes_def
        test_salt_def str_def)

lemma iv_envelope_of:
  "atob_field test_platform (envelope_of d) (str ''iv'') = Inr test_iv"
  by (simp add: envelope_of_def atob_field_def and_then_def lookup_def
        atob_def strip_padding_def ascii_whitespace_def b64_value_def Let_def charCodes_def
        test_iv_def str_def)

lemma decrypt_test_envelope:
  assumes "atob_field test_platform (envelope_of d) (str ''data'') =
             Inr (charCodes password @ test_salt @ test_iv @ charCodes plaintext)"
    and "ascii password" "ascii plaintext"
  shows "decryptData test_platform (envelope_of d) password = Inr plaintext"
proof -
  have "test_decrypt (charCodes password @ test_salt) test_iv
          (charCodes password @ test_salt @ test_iv @ charCodes plaintext) =
        Some (charCodes plaintext)"
    using test_decrypt_own_key [of "charCodes password @ test_salt" test_iv "charCodes plaintext"]
    by simp
  then show ?thesis
    using assms
    by (simp add: decryptData_def salt_envelope_of iv_envelope_of and_then_def deriveKey_def
          ascii_text_encode ascii_text_decode test_platform_fields test_pbkdf2_def)
qed





section \<open>The example backups\<close>

lemma parse_backup_null: "test_parse backup_null = Some (envelope_of data_null)"
  by (simp add: test_parse_def backup_null_def test_parse_envelope_def quoted_field_def str_def
        b64_value_def envelope_of_def data_null_def document_null_def document_negative_def
        document_no_version_def document_empty_def document_BC_def)



lemma parse_document_null:
  "test_parse document_null =
     Some (JNull)"
  by (simp add: test_parse_def str_def document_null_def document_negative_def
        document_no_version_def document_empty_def document_BC_def)

lemma parse_backup_negative: "test_parse backup_negative = Some (envelope_of data_negative)"
  by (simp add: test_parse_def backup_negative_def test_parse_envelope_def quoted_field_def str_def
        b64_value_def envelope_of_def data_negative_def document_null_def document_negative_def
        document_no_version_def document_empty_def document_BC_def)

lemma data_backup_negative:
  "atob_field test_platform (envelope_of data_negative) (str ''data'') =
     Inr (charCodes (str ''Str0ng!Pass'') @ test_salt @ test_iv @ charCodes document_negative)"
  by (simp add: envelope_of_def atob_field_def and_then_def lookup_def data_negative_def
        atob_def strip_padding_def ascii_whitespace_def b64_value_def Let_def charCodes_def
        test_salt_def test_iv_def str_def document_negative_def)

lemma decrypt_backup_negative:
  "decryptData test_platform (envelope_of data_negative) (str ''Str0ng!Pass'') = Inr document_negative"
  by (rule decrypt_test_envelope [OF data_backup_negative])
     (simp_all add: ascii_def str_def document_negative_def)

lemma parse_document_negative:
  "test_parse document_negative =
     Some (JObj [(str ''keys'', JArr [] []), (str ''version'', JNum (- 3))])"
  by (simp add: test_parse_def str_def document_null_def document_negative_def
        document_no_version_def document_empty_def document_BC_def)

lemma parse_backup_no_version: "test_parse backup_no_version = Some (envelope_of data_no_version)"
  by (simp add: test_parse_def backup_no_version_def test_parse_envelope_def quoted_field_def str_def
        b64_value_def envelope_of_def data_no_version_def document_null_def document_negative_def
        document_no_version_def document_empty_def document_BC_def)

lemma data_backup_no_version:
  "atob_field test_platform (envelope_of data_no_version) (str ''data'') =
     Inr (charCodes (str ''Str0ng!Pass'') @ test_salt @ test_iv @ charCodes document_no_version)"
  by (simp add: envelope_of_def atob_field_def and_then_def lookup_def data_no_version_def
        atob_def strip_padding_def ascii_whitespace_def b64_value_def Let_def charCodes_def
        test_salt_def test_iv_def str_def document_no_version_def)

lemma decrypt_backup_no_version:
  "decryptData test_platform (envelope_of data_no_version) (str ''Str0ng!Pass'') = Inr document_no_version"
  by (rule decrypt_test_envelope [OF data_backup_no_version])
     (simp_all add: ascii_def str_def document_no_version_def)

lemma parse_document_no_version:
  "test_parse document_no_version =
     Some (JObj [(str ''keys'', JArr [] [])])"
  by (simp add: test_parse_def str_def document_null_def document_negative_def
        document_no_version_def document_empty_def document_BC_def)

lemma parse_backup_BC: "test_parse backup_BC = Some (envelope_of data_BC)"
  by (simp add: test_parse_def backup_BC_def test_parse_envelope_def quoted_field_def str_def
        b64_value_def envelope_of_def data_BC_def document_null_def document_negative_def
        document_no_version_def document_empty_def document_BC_def)

lemma data_backup_BC:
  "atob_field test_platform (envelope_of data_BC) (str ''data'') =
     Inr (charCodes (str ''Str0ng!Pass'') @ test_salt @ test_iv @ charCodes document_BC)"
  by (simp add: envelope_of_def atob_field_def and_then_def lookup_def data_BC_def
        atob_def strip_padding_def ascii_whitespace_def b64_value_def Let_def charCodes_def
        test_salt_def test_iv_def str_def document_BC_def)

lemma decrypt_backup_BC:
  "decryptData test_platform (envelope_of data_BC) (str ''Str0ng!Pass'') = Inr document_BC"
  by (rule decrypt_test_envelope [OF data_backup_BC])
     (simp_all add: ascii_def str_def document_BC_def)

lemma parse_document_BC:
  "test_parse document_BC =
     Some (JObj [(str ''keys'', JArr [record_named ''B'', record_named ''C''] []),
                 (str ''settings'', JObj [(str ''darkMode'', JBool True)]),
                 (str ''version'', JNum 1)])"
  by (simp add: test_parse_def str_def document_null_def document_negative_def
        document_no_version_def document_empty_def document_BC_def)


lemma data_backup_empty:
  "atob_field test_platform (envelope_of data_empty) (str ''data'') =
     Inr (charCodes (str ''N3wStr0ng!'') @ test_salt @ test_iv @ charCodes document_empty)"
  by (simp add: envelope_of_def atob_field_def and_then_def lookup_def data_empty_def
        atob_def strip_padding_def ascii_whitespace_def b64_value_def Let_def charCodes_def
        test_salt_def test_iv_def str_def document_empty_def)

lemma decrypt_backup_empty:
  "decryptData test_platform (envelope_of data_empty) (str ''N3wStr0ng!'') = Inr document_empty"
  by (rule decrypt_test_envelope [OF data_backup_empty])
     (simp_all add: ascii_def str_def document_empty_def)


section \<open>The round trip\<close>

lemma max_arguments_test: "max_arguments test_platform = 65535"
  by (simp add: test_platform_def)

lemma within_limit_test:
  assumes "length (text_encode password) + length (text_encode plaintext) \<le> 65000"
  shows "within_argument_limit test_platform test_salt test_iv plaintext password"
  using assms
  by (simp add: within_argument_limit_def test_platform_fields max_arguments_test
        test_encrypt_def test_pbkdf2_def test_salt_def test_iv_def)

lemma length_text_encode_ascii: "ascii s \<Longrightarrow> length (text_encode s) = length s"
  by (simp add: ascii_text_encode charCodes_def)

lemma text_encode_empty: "text_encode [] = []"
  by (simp add: text_encode_def)

lemma text_encode_bom: "text_encode [0xFEFF] = [0xEF, 0xBB, 0xBF]"
  by (simp add: text_encode_def is_surrogate_def is_high_surrogate_def is_low_surrogate_def
        utf8_of_code_point_def)

lemma ascii_examples:
  "ascii (str ''Str0ng!Pass'')" "ascii (str ''N3wStr0ng!'')" "ascii (str ''0therPass'')"
  "ascii (str ''abcdefgh'')"
  by (simp_all add: ascii_def str_def)

text \<open>
  Claim C2, as amended. With a cipher whose decryption inverts its encryption under the
  same key and nonce, and a ciphertext, salt and nonce that each fit the argument limit of
  one call, \<open>decryptData\<close> applied with password \<open>W\<close> to the envelope that \<open>encryptData\<close>
  produces from a plaintext and \<open>W\<close> returns what \<open>TextDecoder\<close> makes of the plaintext's
  UTF-8 encoding: the envelope is the one whose base64 fields \<open>data\<close>, \<open>salt\<close> and \<open>iv\<close> hold
  the ciphertext, the salt and the nonce, and they are decoded to the bytes they were made
  from. The result is the plaintext itself whenever the plaintext is well formed (no
  unpaired surrogate) and does not begin with U+FEFF, as the empty string is.
\<close>

theorem encrypt_decrypt_roundtrip:
  assumes "aead_correct P" and "within_argument_limit P salt iv plaintext W"
  shows "encryptData P salt iv plaintext W = Inr (sealed_envelope P salt iv plaintext W)
         \<and> atob_field P (sealed_envelope P salt iv plaintext W) (str ''data'') =
             Inr (aes_gcm_encrypt P (pbkdf2 P (text_encode W) salt) iv (text_encode plaintext))
         \<and> atob_field P (sealed_envelope P salt iv plaintext W) (str ''salt'') = Inr salt
         \<and> atob_field P (sealed_envelope P salt iv plaintext W) (str ''iv'') = Inr iv
         \<and> decrypt_after_encrypt P salt iv plaintext W W =
             Inr (text_decode (text_encode plaintext))
         \<and> (isWellFormed plaintext \<and> \<not> starts_with_bom plaintext \<longrightarrow>
              decrypt_after_encrypt P salt iv plaintext W W = Inr plaintext)"
  using assms
  by (simp add: decrypt_after_encrypt_eq encryptData_eq aead_correct_def text_roundtrip
        atob_field_b64 sealed_envelope_def js_get_envelope del: js_get.simps)

text \<open>The theorem at the empty plaintext, on the example platform.\<close>

theorem encrypt_decrypt_roundtrip_witness:
  "aead_correct test_platform
   \<and> within_argument_limit test_platform test_salt test_iv [] (str ''Str0ng!Pass'')
   \<and> decrypt_after_encrypt test_platform test_salt test_iv [] (str ''Str0ng!Pass'')
       (str ''Str0ng!Pass'') = Inr []"
proof -
  have w: "within_argument_limit test_platform test_salt test_iv [] (str ''Str0ng!Pass'')"
    by (rule within_limit_test)
       (simp add: length_text_encode_ascii ascii_examples text_encode_empty, simp add: str_def)
  show ?thesis
    using encrypt_decrypt_roundtrip [OF aead_correct_test w] isWellFormed_empty
      aead_correct_test w by blast
qed

text \<open>
  The claim as stated fails at the one-character plaintext U+FEFF: the decoder drops it as
  a byte order mark, and the round trip returns the empty string.
\<close>

theorem roundtrip_counterexample:
  "decrypt_after_encrypt test_platform test_salt test_iv [0xFEFF] (str ''Str0ng!Pass'')
     (str ''Str0ng!Pass'') = Inr []
   \<and> Inr [] \<noteq> (Inr [0xFEFF] :: js_error + js_string)"
proof -
  have w: "within_argument_limit test_platform test_salt test_iv [0xFEFF] (str ''Str0ng!Pass'')"
    by (rule within_limit_test)
       (simp add: length_text_encode_ascii ascii_examples text_encode_bom, simp add: str_def)
  show ?thesis
    using aead_correct_test
    by (simp add: decrypt_after_encrypt_eq [OF w] aead_correct_def text_bom)
qed

section \<open>The authentication state machine\<close>

lemma symbol_class_chars:
  "symbol_class =
     [0x21, 0x40, 0x23, 0x24, 0x25, 0x5E, 0x26, 0x2A, 0x28, 0x29,
      0x2C, 0x2E, 0x3F, 0x22, 0x3A, 0x7B, 0x7D, 0x7C, 0x3C, 0x3E]"
  by (simp add: symbol_class_def str_def)

lemma isValid_iff:
  "isValid (validatePasswordStrength password) =
     (hasUpperCase password \<and> hasLowerCase password \<and> hasNumbers password
      \<and> hasSymbols password \<and> isLongEnough password)"
  by (simp add: validatePasswordStrength_def)


lemma handleAuth_reset_weak:
  assumes "authMode (fst w) = Unlock" "2 \<le> failedAttempts (fst w)"
    and "\<not> handleAuth_validatePasswordStrength password"
  shows "handleAuth P password w =
           ((fst w)\<lparr>authError := reset_requirements_message, authLoading := False\<rparr>, snd w)"
  using assms by (simp add: handleAuth_def Let_def)


lemma handleAuth_unlock_fail:
  assumes "authMode (fst w) = Unlock" "failedAttempts (fst w) < 2"
    and "fst (loadVaultData P password (snd w)) = Inl e"
  shows "handleAuth P password w =
           ((fst w)\<lparr>failedAttempts := failedAttempts (fst w) + 1,
                    authError :=
                      (if 2 \<le> failedAttempts (fst w) + 1 then too_many_attempts_message
                       else incorrect_password_message (failedAttempts (fst w) + 1)),
                    authLoading := False\<rparr>,
            snd w)"
  using assms by (simp add: handleAuth_def Let_def loadVaultData_storage)

lemma handleAuth_unlock_ok:
  assumes "authMode (fst w) = Unlock" "failedAttempts (fst w) < 2"
    and "fst (loadVaultData P password (snd w)) = Inr v"
  shows "handleAuth P password w = (auth_success password ((fst w)\<lparr>authError := [], authLoading := True\<rparr>), snd w)"
  using assms by (simp add: handleAuth_def Let_def loadVaultData_storage)


lemma incorrect_password_message_1:
  "incorrect_password_message 1 = ''Incorrect password. 1 attempt remaining before data reset.''"
  by (simp add: incorrect_password_message_def show_nat_def)


lemma Locked_iff:
  "auth_state_of s = Locked n \<longleftrightarrow>
     authMode s = Unlock \<and> failedAttempts s = n \<and> \<not> (isAuthenticated s \<and> masterPassword s \<noteq> [])"
  by (cases "authMode s") (auto simp: auth_state_of_def)






lemma example_locked_state: "auth_state_of (example_locked n) = Locked n"
  by (simp add: auth_state_of_def example_locked_def)


lemma success_resets:
  assumes "\<not> isAuthenticated s" "isAuthenticated (fst (handleAuth P password (s, st)))"
  shows "failedAttempts (fst (handleAuth P password (s, st))) = 0"
  using assms
  by (auto simp: handleAuth_def Let_def auth_success_def split: sum.splits if_splits)

text \<open>
  Claim C4. In state \<open>Locked n\<close> with \<open>n < 2\<close>, an attempt on which \<open>loadVaultData\<close> fails
  leads to \<open>Locked (n + 1)\<close>, leaves the storage as it was, and reports how many attempts
  remain: one remaining after the first failure, and after the second the warning that
  none remains, the next password creating a new vault. An attempt on which
  \<open>loadVaultData\<close> succeeds authenticates under that password with the counter at 0, as
  does every attempt that authenticates at all. \<open>handleLock\<close> leads to \<open>Locked 0\<close> with the
  counter at 0 from every state.
\<close>

theorem attempt_counter:
  "(auth_state_of s = Locked n \<and> n < 2 \<and> fst (loadVaultData P password st) = Inl e \<longrightarrow>
      auth_state_of (fst (handleAuth P password (s, st))) = Locked (n + 1)
    \<and> snd (handleAuth P password (s, st)) = st
    \<and> authError (fst (handleAuth P password (s, st))) =
        (if n = 0 then ''Incorrect password. 1 attempt remaining before data reset.''
         else ''Too many failed attempts. The next password you enter will create a new vault and erase all existing data.''))
   \<and> (auth_state_of s = Locked n \<and> n < 2 \<and> fst (loadVaultData P password st) = Inr v \<longrightarrow>
      isAuthenticated (fst (handleAuth P password (s, st)))
    \<and> masterPassword (fst (handleAuth P password (s, st))) = password
    \<and> failedAttempts (fst (handleAuth P password (s, st))) = 0)
   \<and> (\<not> isAuthenticated s \<and> isAuthenticated (fst (handleAuth P password (s, st))) \<longrightarrow>
      failedAttempts (fst (handleAuth P password (s, st))) = 0)
   \<and> auth_state_of (handleLock s) = Locked 0
   \<and> failedAttempts (handleLock s) = 0"
proof (intro conjI impI)
  assume a: "auth_state_of s = Locked n \<and> n < 2 \<and> fst (loadVaultData P password st) = Inl e"
  then have m: "authMode (fst (s, st)) = Unlock" and f: "failedAttempts (fst (s, st)) < 2"
    and l: "fst (loadVaultData P password (snd (s, st))) = Inl e"
    and n: "failedAttempts s = n" and u: "\<not> (isAuthenticated s \<and> masterPassword s \<noteq> [])"
    by (simp_all add: Locked_iff)
  have n01: "n = 0 \<or> n = 1" using a by linarith
  note h = handleAuth_unlock_fail [OF m f l]
  show "auth_state_of (fst (handleAuth P password (s, st))) = Locked (n + 1)"
    using m n u by (simp add: h Locked_iff)
  show "snd (handleAuth P password (s, st)) = st" by (simp add: h)
  show "authError (fst (handleAuth P password (s, st))) =
        (if n = 0 then ''Incorrect password. 1 attempt remaining before data reset.''
         else ''Too many failed attempts. The next password you enter will create a new vault and erase all existing data.'')"
    using n n01 incorrect_password_message_1
    by (auto simp add: h too_many_attempts_message_def)
next
  assume a: "auth_state_of s = Locked n \<and> n < 2 \<and> fst (loadVaultData P password st) = Inr v"
  then have m: "authMode (fst (s, st)) = Unlock" and f: "failedAttempts (fst (s, st)) < 2"
    and l: "fst (loadVaultData P password (snd (s, st))) = Inr v"
    by (simp_all add: Locked_iff)
  note h = handleAuth_unlock_ok [OF m f l]
  show "isAuthenticated (fst (handleAuth P password (s, st)))"
    "masterPassword (fst (handleAuth P password (s, st))) = password"
    "failedAttempts (fst (handleAuth P password (s, st))) = 0"
    by (simp_all add: h auth_success_def)
next
  assume "\<not> isAuthenticated s \<and> isAuthenticated (fst (handleAuth P password (s, st)))"
  then show "failedAttempts (fst (handleAuth P password (s, st))) = 0"
    using success_resets by blast
next
  show "auth_state_of (handleLock s) = Locked 0" "failedAttempts (handleLock s) = 0"
    by (simp_all add: handleLock_def auth_state_of_def)
qed

section \<open>The password strength policy\<close>

lemma strength_copies_agree:
  "handleAuth_validatePasswordStrength password = isValid (validatePasswordStrength password)"
  by (simp add: handleAuth_validatePasswordStrength_def validatePasswordStrength_def)

lemma no_symbol_rejected:
  "\<forall>c \<in> set password. c \<notin> set symbol_class \<Longrightarrow> \<not> isValid (validatePasswordStrength password)"
  by (simp add: validatePasswordStrength_def hasSymbols_def list_ex_iff)









text \<open>
  Claim C10. The symbol class of the strength check is the twenty characters
  \<open>!@#$%^&*(),.?":{}|<>\<close>. A password with no character of this class is rejected by both
  copies of the check: a submission in mode \<open>create\<close> returns before \<open>onAuth\<close>, and
  \<open>handleAuth\<close> in mode \<open>unlock\<close> with two failures reports the requirements message and
  changes nothing else, whatever other characters the password contains.
\<close>

theorem symbol_class_only:
  "symbol_class =
     [0x21, 0x40, 0x23, 0x24, 0x25, 0x5E, 0x26, 0x2A, 0x28, 0x29,
      0x2C, 0x2E, 0x3F, 0x22, 0x3A, 0x7B, 0x7D, 0x7C, 0x3C, 0x3E]
   \<and> ((\<forall>c \<in> set password. c \<notin> set symbol_class) \<longrightarrow>
        \<not> isValid (validatePasswordStrength password)
      \<and> \<not> handleAuth_validatePasswordStrength password
      \<and> handleSubmit Create password confirmPassword = None
      \<and> (authMode (fst w) = Unlock \<and> 2 \<le> failedAttempts (fst w) \<longrightarrow>
           handleAuth P password w =
             ((fst w)\<lparr>authError := reset_requirements_message, authLoading := False\<rparr>, snd w)))"
  using no_symbol_rejected [of password] handleAuth_reset_weak [of w password P]
  by (auto simp: symbol_class_chars [symmetric] strength_copies_agree handleSubmit_def)

text \<open>The theorem at \<open>Abcdef1_\<close>, whose underscore is not in the class.\<close>

theorem symbol_class_only_witness:
  "0x5F \<in> set (str ''Abcdef1_'')
   \<and> \<not> isValid (validatePasswordStrength (str ''Abcdef1_''))
   \<and> handleSubmit Create (str ''Abcdef1_'') (str ''Abcdef1_'') = None
   \<and> handleAuth test_platform (str ''Abcdef1_'') (example_locked 2, [STORAGE_KEY \<mapsto> backup_BC]) =
       ((example_locked 2)\<lparr>authError := reset_requirements_message, authLoading := False\<rparr>,
        [STORAGE_KEY \<mapsto> backup_BC])"
proof -
  have a: "\<forall>c \<in> set (str ''Abcdef1_''). c \<notin> set symbol_class"
    by (simp add: symbol_class_chars) (simp add: str_def)
  have b: "0x5F \<in> set (str ''Abcdef1_'')" by (simp add: str_def)
  have c: "authMode (fst (example_locked 2, st)) = Unlock \<and> 2 \<le> failedAttempts (fst (example_locked 2, st))"
    for st :: local_storage
    by (simp add: example_locked_def)
  show ?thesis
    using symbol_class_only [of "str ''Abcdef1_''" "str ''Abcdef1_''"
        "(example_locked 2, [STORAGE_KEY \<mapsto> backup_BC])" test_platform] a b c
    by (simp del: fun_upd_apply)
qed

section \<open>The attempt counter on a stored vault\<close>

lemma parse_test: "json_parse test_platform = test_parse"
  by (simp add: test_platform_def)

lemma wrong_password_backup_BC:
  "decryptData test_platform
     (envelope_of data_BC)
     (str ''wrong1'') = Inl OperationError"
  by (simp add: decryptData_def salt_envelope_of iv_envelope_of data_backup_BC and_then_def
        deriveKey_def test_platform_fields test_pbkdf2_def test_decrypt_def)
     (simp add: text_encode_def charCodes_def str_def test_salt_def test_iv_def
        utf8_of_code_point_def is_surrogate_def is_high_surrogate_def is_low_surrogate_def)

lemma load_backup_BC_wrong:
  "fst (loadVaultData test_platform (str ''wrong1'') [STORAGE_KEY \<mapsto> backup_BC]) =
     Inl (Error ''Failed to decrypt vault data. Check your master password.'')"
proof -
  have "backup_BC \<noteq> []" by (simp add: backup_BC_def str_def)
  then show ?thesis
    by (simp add: loadVaultData_def parse_def parse_test parse_backup_BC and_then_def
          wrong_password_backup_BC)
qed

lemma load_backup_BC:
  "fst (loadVaultData test_platform (str ''Str0ng!Pass'') [STORAGE_KEY \<mapsto> backup_BC]) =
     Inr (JObj [(str ''keys'', JArr [record_named ''B'', record_named ''C''] []),
                (str ''settings'',
                 JObj [(str ''clipboardClearTime'', JNum 30), (str ''autoLockTime'', JNum 15),
                       (str ''darkMode'', JBool True), (str ''showKeyPreview'', JBool False)]),
                (str ''version'', JNum 1)])"
proof -
  have "backup_BC \<noteq> []" by (simp add: backup_BC_def str_def)
  then show ?thesis
    by (simp add: loadVaultData_def parse_def parse_test parse_backup_BC and_then_def
          decrypt_backup_BC parse_document_BC lookup_def spread_def DEFAULT_SETTINGS_def)
       (simp add: str_def)
qed

text \<open>
  The theorem on the stored vault made under \<open>Str0ng!Pass\<close>: the password \<open>wrong1\<close> leads
  from \<open>Locked 0\<close> to \<open>Locked 1\<close> and from \<open>Locked 1\<close> to \<open>Locked 2\<close>, and the right password
  unlocks from \<open>Locked 1\<close> with the counter back at 0.
\<close>

theorem attempt_counter_witness:
  "auth_state_of (fst (handleAuth test_platform (str ''wrong1'')
       (example_locked 0, [STORAGE_KEY \<mapsto> backup_BC]))) = Locked 1
   \<and> authError (fst (handleAuth test_platform (str ''wrong1'')
       (example_locked 0, [STORAGE_KEY \<mapsto> backup_BC]))) =
       ''Incorrect password. 1 attempt remaining before data reset.''
   \<and> auth_state_of (fst (handleAuth test_platform (str ''wrong1'')
       (example_locked 1, [STORAGE_KEY \<mapsto> backup_BC]))) = Locked 2
   \<and> isAuthenticated (fst (handleAuth test_platform (str ''Str0ng!Pass'')
       (example_locked 1, [STORAGE_KEY \<mapsto> backup_BC])))
   \<and> failedAttempts (fst (handleAuth test_platform (str ''Str0ng!Pass'')
       (example_locked 1, [STORAGE_KEY \<mapsto> backup_BC]))) = 0"
  using attempt_counter [of "example_locked 0" 0 test_platform "str ''wrong1''"
      "[STORAGE_KEY \<mapsto> backup_BC]"]
    attempt_counter [of "example_locked 1" 1 test_platform "str ''wrong1''"
      "[STORAGE_KEY \<mapsto> backup_BC]"]
    attempt_counter [of "example_locked 1" 1 test_platform "str ''Str0ng!Pass''"
      "[STORAGE_KEY \<mapsto> backup_BC]"]
    load_backup_BC_wrong load_backup_BC example_locked_state
  by (simp del: fun_upd_apply)

section \<open>Importing a backup\<close>

lemma lookup_put_same: "lookup (put ps k v) k = v"
  by (induction ps) (auto simp: lookup_def)

lemma lookup_put_other: "k' \<noteq> k \<Longrightarrow> lookup (put ps k v) k' = lookup ps k'"
  by (induction ps) (auto simp: lookup_def)

lemma lookup_put: "lookup (put ps k v) k' = (if k' = k then v else lookup ps k')"
  by (simp add: lookup_put_same lookup_put_other)

lemma lookup_foldl_put:
  "lookup (foldl (\<lambda>acc (k, x). put acc k x) ps xs) k =
     (case map_of (rev xs) k of Some x \<Rightarrow> x | None \<Rightarrow> lookup ps k)"
proof (induction xs arbitrary: ps)
  case Nil
  show ?case by simp
next
  case (Cons a xs)
  obtain k' x' where a: "a = (k', x')" by (cases a)
  show ?case
    by (simp add: Cons.IH a map_add_def lookup_put split: option.splits)
qed

lemma lookup_spread:
  "lookup (spread ps v) k =
     (case map_of (rev (own_props v)) k of Some x \<Rightarrow> x | None \<Rightarrow> lookup ps k)"
  by (simp add: spread_def lookup_foldl_put)

lemma lookup_spread_absent:
  "map_of (own_props v) k = None \<Longrightarrow> lookup (spread ps v) k = lookup ps k"
proof -
  assume "map_of (own_props v) k = None"
  then have "k \<notin> fst ` set (own_props v)" by (simp add: map_of_eq_None_iff)
  then have "map_of (rev (own_props v)) k = None" by (simp add: map_of_eq_None_iff)
  then show ?thesis by (simp add: lookup_spread)
qed


lemma importVault_error:
  "fst (importVault P blob password st) = Inl err \<Longrightarrow>
     \<exists>cause. err = ErrorFrom ''Failed to import vault data: '' cause"
  by (auto simp: importVault_def split: sum.splits)

lemma importVault_decoded:
  assumes "parse P blob = Inr envelope" "decryptData P envelope password = Inr json"
    and "parse P json = Inr decoded"
  shows "fst (importVault P blob password st) =
     (case js_get decoded (str ''keys'') of
        Inl e \<Rightarrow> Inl (ErrorFrom ''Failed to import vault data: '' e)
      | Inr keys \<Rightarrow>
          if \<not> isArray keys
          then Inl (ErrorFrom ''Failed to import vault data: '' (Error ''Invalid backup file format''))
          else
            (case js_get decoded (str ''settings'') of
               Inl e \<Rightarrow> Inl (ErrorFrom ''Failed to import vault data: '' e)
             | Inr settings \<Rightarrow>
                 (case js_get decoded (str ''version'') of
                    Inl e \<Rightarrow> Inl (ErrorFrom ''Failed to import vault data: '' e)
                  | Inr version \<Rightarrow>
                      Inr (JObj [(str ''keys'', keys),
                                 (str ''settings'', JObj (spread DEFAULT_SETTINGS settings)),
                                 (str ''version'', if truthy version then version else JNum 1)]))))"
proof -
  have t: "isArray keys \<Longrightarrow> truthy keys" for keys by (cases keys) simp_all
  show ?thesis
    using assms t
    by (auto simp: importVault_def and_then_def split: sum.splits)
qed

lemma importVault_object:
  assumes "parse P blob = Inr envelope" "decryptData P envelope password = Inr json"
    and "parse P json = Inr (JObj props)" "lookup props (str ''keys'') = JArr records extra"
  shows "fst (importVault P blob password st) =
     Inr (JObj [(str ''keys'', JArr records extra),
                (str ''settings'', JObj (spread DEFAULT_SETTINGS (lookup props (str ''settings'')))),
                (str ''version'',
                 if truthy (lookup props (str ''version'')) then lookup props (str ''version'')
                 else JNum 1)])"
  using assms(4) by (simp add: importVault_decoded [OF assms(1-3)])




lemma has_record_sequence_object:
  "has_record_sequence decoded \<Longrightarrow>
     \<exists>props records extra. decoded = JObj props \<and> lookup props (str ''keys'') = JArr records extra"
  by (cases decoded) (auto simp: has_record_sequence_def split: jsval.splits if_splits)



section \<open>The version of a returned vault\<close>

lemma loadVaultData_object:
  assumes "st STORAGE_KEY = Some stored" "stored \<noteq> []"
    and "parse P stored = Inr envelope" "decryptData P envelope password = Inr json"
    and "parse P json = Inr (JObj props)"
  shows "fst (loadVaultData P password st) =
     Inr (JObj (put props (str ''settings'')
                  (JObj (spread DEFAULT_SETTINGS (lookup props (str ''settings''))))))"
  using assms by (simp add: loadVaultData_def and_then_def)


lemma version_at_least_one_empty: "version_at_least_one empty_vault"
  by (simp add: version_at_least_one_def empty_vault_fields del: js_get.simps)

lemma version_at_least_one_literal:
  "version_at_least_one
     (JObj [(str ''keys'', a), (str ''settings'', b), (str ''version'', x)]) =
     (case x of JNum q \<Rightarrow> 1 \<le> q | _ \<Rightarrow> False)"
  by (simp add: version_at_least_one_def lookup_def str_distinct_fields split: jsval.splits)

text \<open>
  Claim C6, as amended. \<open>loadVaultData\<close> returns version 1 when nothing is stored, and
  when the stored vault is an object with a numeric version it returns that version
  unchanged, which is at least 1 exactly when the stored one is. \<open>importVault\<close> returns a
  version that is always present and truthy: the backup's version when that is truthy,
  and 1 otherwise, so it is at least 1 when the backup has no version, version \<open>null\<close> or
  version 0, and for a numeric version \<open>r\<close> exactly when \<open>r\<close> is 0 or at least 1; a negative
  version is returned unchanged.
\<close>

theorem returned_version:
  "(st STORAGE_KEY = None \<longrightarrow>
      (\<exists>v. fst (loadVaultData P password st) = Inr v \<and> version_at_least_one v))
   \<and> (st STORAGE_KEY = Some stored \<and> stored \<noteq> [] \<and> parse P stored = Inr envelope
       \<and> decryptData P envelope password = Inr json \<and> parse P json = Inr (JObj props)
       \<and> lookup props (str ''version'') = JNum r \<longrightarrow>
      (\<exists>v. fst (loadVaultData P password st) = Inr v
         \<and> js_get v (str ''version'') = Inr (JNum r)
         \<and> (version_at_least_one v \<longleftrightarrow> 1 \<le> r)))
   \<and> (parse P blob = Inr envelope' \<and> decryptData P envelope' password = Inr json'
       \<and> parse P json' = Inr decoded \<and> has_record_sequence decoded \<longrightarrow>
      (\<exists>props' v x.
         decoded = JObj props' \<and> fst (importVault P blob password st') = Inr v
       \<and> js_get v (str ''version'') = Inr x \<and> x \<noteq> JUndefined \<and> truthy x
       \<and> x = (if truthy (lookup props' (str ''version'')) then lookup props' (str ''version'')
              else JNum 1)
       \<and> (lookup props' (str ''version'') = JUndefined \<or> lookup props' (str ''version'') = JNull
          \<or> lookup props' (str ''version'') = JNum 0 \<longrightarrow> version_at_least_one v)
       \<and> (lookup props' (str ''version'') = JNum r' \<longrightarrow>
            (version_at_least_one v \<longleftrightarrow> r' = 0 \<or> 1 \<le> r'))))"
proof (intro conjI impI)
  assume "st STORAGE_KEY = None"
  then show "\<exists>v. fst (loadVaultData P password st) = Inr v \<and> version_at_least_one v"
    by (simp add: loadVaultData_absent version_at_least_one_empty)
next
  assume a: "st STORAGE_KEY = Some stored \<and> stored \<noteq> [] \<and> parse P stored = Inr envelope
       \<and> decryptData P envelope password = Inr json \<and> parse P json = Inr (JObj props)
       \<and> lookup props (str ''version'') = JNum r"
  then have l: "fst (loadVaultData P password st) =
     Inr (JObj (put props (str ''settings'')
                  (JObj (spread DEFAULT_SETTINGS (lookup props (str ''settings''))))))"
    using loadVaultData_object by blast
  show "\<exists>v. fst (loadVaultData P password st) = Inr v
         \<and> js_get v (str ''version'') = Inr (JNum r)
         \<and> (version_at_least_one v \<longleftrightarrow> 1 \<le> r)"
    using a by (simp add: l version_at_least_one_def lookup_put str_distinct_fields)
next
  assume a: "parse P blob = Inr envelope' \<and> decryptData P envelope' password = Inr json'
       \<and> parse P json' = Inr decoded \<and> has_record_sequence decoded"
  then obtain props' records extra where p: "decoded = JObj props'"
    "lookup props' (str ''keys'') = JArr records extra"
    using has_record_sequence_object by blast
  from a p have d: "parse P blob = Inr envelope'" "decryptData P envelope' password = Inr json'"
    "parse P json' = Inr (JObj props')" by simp_all
  let ?x = "if truthy (lookup props' (str ''version'')) then lookup props' (str ''version'')
            else JNum 1"
  let ?v = "JObj [(str ''keys'', JArr records extra),
                  (str ''settings'',
                   JObj (spread DEFAULT_SETTINGS (lookup props' (str ''settings'')))),
                  (str ''version'', ?x)]"
  have i: "fst (importVault P blob password st') = Inr ?v"
    using importVault_object [OF d p(2)] .
  have g: "js_get ?v (str ''version'') = Inr ?x"
    by (simp add: lookup_def str_distinct_fields)
  have t: "truthy ?x" "?x \<noteq> JUndefined" by auto
  show "\<exists>props' v x.
         decoded = JObj props' \<and> fst (importVault P blob password st') = Inr v
       \<and> js_get v (str ''version'') = Inr x \<and> x \<noteq> JUndefined \<and> truthy x
       \<and> x = (if truthy (lookup props' (str ''version'')) then lookup props' (str ''version'')
              else JNum 1)
       \<and> (lookup props' (str ''version'') = JUndefined \<or> lookup props' (str ''version'') = JNull
          \<or> lookup props' (str ''version'') = JNum 0 \<longrightarrow> version_at_least_one v)
       \<and> (lookup props' (str ''version'') = JNum r' \<longrightarrow>
            (version_at_least_one v \<longleftrightarrow> r' = 0 \<or> 1 \<le> r'))"
    by (rule exI [of _ props'], rule exI [of _ ?v], rule exI [of _ ?x])
       (use p(1) i g t in \<open>auto simp: version_at_least_one_literal\<close>)
qed

section \<open>Imports and loads on the example backups\<close>


lemma parse_test_platform:
  "parse test_platform s = (case test_parse s of None \<Rightarrow> Inl SyntaxError | Some v \<Rightarrow> Inr v)"
  by (simp add: parse_def test_platform_fields)


lemma default_settings_alone: "spread DEFAULT_SETTINGS JUndefined = DEFAULT_SETTINGS"
  by (simp add: spread_def)

lemma record_sequence_examples:
  "has_record_sequence
     (JObj [(str ''keys'', JArr [record_named ''B'', record_named ''C''] []),
            (str ''settings'', JObj [(str ''darkMode'', JBool True)]),
            (str ''version'', JNum 1)])"
  "has_record_sequence (JObj [(str ''keys'', JArr [] []), (str ''version'', JNum (- 3))])"
  "has_record_sequence (JObj [(str ''keys'', JArr [] [])])"
  "\<not> has_record_sequence JNull"
  by (simp_all add: has_record_sequence_def lookup_def)

lemma decoded_backups:
  "parse test_platform backup_BC = Inr (envelope_of data_BC)"
  "parse test_platform backup_null = Inr (envelope_of data_null)"
  "parse test_platform backup_negative = Inr (envelope_of data_negative)"
  "parse test_platform backup_no_version = Inr (envelope_of data_no_version)"
  by (simp_all add: parse_test_platform parse_backup_BC parse_backup_null parse_backup_negative
        parse_backup_no_version)

lemma decoded_documents:
  "parse test_platform document_BC =
     Inr (JObj [(str ''keys'', JArr [record_named ''B'', record_named ''C''] []),
                (str ''settings'', JObj [(str ''darkMode'', JBool True)]),
                (str ''version'', JNum 1)])"
  "parse test_platform document_null = Inr JNull"
  "parse test_platform document_negative =
     Inr (JObj [(str ''keys'', JArr [] []), (str ''version'', JNum (- 3))])"
  "parse test_platform document_no_version = Inr (JObj [(str ''keys'', JArr [] [])])"
  by (simp_all add: parse_test_platform parse_document_BC parse_document_null
        parse_document_negative parse_document_no_version)



text \<open>
  The theorem on a backup without a version, which imports with version 1, and on the
  stored vault with version 1, which loads with it.
\<close>

theorem returned_version_witness:
  "map_sum id version_at_least_one
     (fst (importVault test_platform backup_no_version (str ''Str0ng!Pass'') Map.empty)) = Inr True
   \<and> map_sum id version_at_least_one
     (fst (loadVaultData test_platform (str ''Str0ng!Pass'') [STORAGE_KEY \<mapsto> backup_BC])) = Inr True"
proof -
  have ne: "backup_BC \<noteq> []" by (simp add: backup_BC_def str_def)
  have s: "[STORAGE_KEY \<mapsto> backup_BC] STORAGE_KEY = Some backup_BC" by simp
  let ?ps = "[(str ''keys'', JArr [record_named ''B'', record_named ''C''] []),
              (str ''settings'', JObj [(str ''darkMode'', JBool True)]),
              (str ''version'', JNum 1)]"
  have v: "lookup ?ps (str ''version'') = JNum 1"
    by (simp add: lookup_def str_distinct_fields)
  note t = returned_version [where st = "[STORAGE_KEY \<mapsto> backup_BC]" and P = test_platform
      and password = "str ''Str0ng!Pass''" and stored = backup_BC
      and envelope = "envelope_of data_BC" and json = document_BC and props = ?ps and r = 1
      and blob = backup_no_version and envelope' = "envelope_of data_no_version"
      and json' = document_no_version and decoded = "JObj [(str ''keys'', JArr [] [])]"
      and st' = Map.empty]
  from t s ne decoded_backups(1) decrypt_backup_BC decoded_documents(1) v
  obtain v1 where "fst (loadVaultData test_platform (str ''Str0ng!Pass'')
      [STORAGE_KEY \<mapsto> backup_BC]) = Inr v1" "version_at_least_one v1"
    by (auto simp del: fun_upd_apply)
  moreover from t decoded_backups(4) decrypt_backup_no_version decoded_documents(4)
    record_sequence_examples(3)
  obtain props' v2 where "JObj [(str ''keys'', JArr [] [])] = JObj props'"
    "fst (importVault test_platform backup_no_version (str ''Str0ng!Pass'') Map.empty) = Inr v2"
    "lookup props' (str ''version'') = JUndefined \<longrightarrow> version_at_least_one v2"
    by blast
  moreover have "lookup [(str ''keys'', JArr [] [])] (str ''version'') = JUndefined"
    by (simp add: lookup_def str_distinct_fields)
  ultimately show ?thesis by auto
qed

text \<open>
  The claim as stated fails at a backup whose plaintext is \<open>{"keys":[],"version":-3}\<close>:
  \<open>importVault\<close> returns version -3.
\<close>

theorem negative_version_counterexample:
  "fst (importVault test_platform backup_negative (str ''Str0ng!Pass'') Map.empty) =
     Inr (JObj [(str ''keys'', JArr [] []),
                (str ''settings'', JObj DEFAULT_SETTINGS),
                (str ''version'', JNum (- 3))])
   \<and> \<not> version_at_least_one
         (JObj [(str ''keys'', JArr [] []),
                (str ''settings'', JObj DEFAULT_SETTINGS),
                (str ''version'', JNum (- 3))])"
  using importVault_object [OF decoded_backups(3) decrypt_backup_negative decoded_documents(3),
      of "[]" "[]" Map.empty]
  by (simp add: lookup_def str_distinct_fields default_settings_alone version_at_least_one_literal)

section \<open>The reset after two failed attempts\<close>









section \<open>The reset on the example platform\<close>











section \<open>Failures of decryption\<close>














section \<open>Merging an imported backup\<close>

lemma js_get_readable: "readable k \<Longrightarrow> js_get k f = Inr (case js_get k f of Inr n \<Rightarrow> n | Inl e \<Rightarrow> JUndefined)"
  by (cases k) (simp_all add: readable_def)

lemma js_get_name: "readable k \<Longrightarrow> js_get k (str ''name'') = Inr (name_of k)"
  unfolding name_of_def by (rule js_get_readable)

lemma names_of_readable:
  "\<forall>k \<in> set ks. readable k \<Longrightarrow> names_of ks = Inr (map name_of ks)"
  by (induction ks) (simp_all add: js_get_name and_then_def)

lemma filter_new_readable:
  "\<forall>k \<in> set ks. readable k \<Longrightarrow>
     filter_new ns ks = Inr (filter (\<lambda>k. \<not> list_ex (same_value_zero (name_of k)) ns) ks)"
  by (induction ks) (simp_all add: js_get_name and_then_def)

lemma same_value_zero_strings: "same_value_zero (JStr a) (JStr b) = (a = b)"
  by simp

lemma lookup_merged_settings:
  "lookup (spread (spread [] prev) imported) f =
     (case map_of (rev (own_props imported)) f of
        Some x \<Rightarrow> x
      | None \<Rightarrow> (case map_of (rev (own_props prev)) f of Some x \<Rightarrow> x | None \<Rightarrow> JUndefined))"
proof -
  have "lookup [] f = JUndefined" by (simp add: lookup_def)
  then have "lookup (spread [] prev) f =
      (case map_of (rev (own_props prev)) f of Some x \<Rightarrow> x | None \<Rightarrow> JUndefined)"
    by (simp add: lookup_spread split: option.splits)
  then show ?thesis by (simp add: lookup_spread [of "spread [] prev"] split: option.splits)
qed

text \<open>
  Claim C9. When \<open>importVault\<close> returns a vault whose records, like the records of the
  unlocked vault, are values with properties, \<open>handleImportVault\<close> succeeds and the new
  vault data has the existing records, unchanged and in their order, followed by exactly
  those imported records whose name is the name of no existing record, names being
  compared as \<open>Set.prototype.has\<close> compares them. Every field of the settings has the
  value of the imported settings where they have the field, and the current value
  otherwise; every other property of the vault data is as before.
\<close>

theorem import_merge:
  assumes "fst (importVault P file_text password st) = Inr imported"
    and "js_get imported (str ''keys'') = Inr (JArr importedKeys extra)"
    and "vaultData v = JObj props"
    and "lookup props (str ''keys'') = JArr existingKeys extra'"
    and "\<forall>k \<in> set existingKeys. readable k" and "\<forall>k \<in> set importedKeys. readable k"
  shows "\<exists>merged importedSettings.
     handleImportVault P file_text password v st = Inr (v\<lparr>vaultData := merged\<rparr>)
     \<and> js_get imported (str ''settings'') = Inr importedSettings
     \<and> js_get merged (str ''keys'') =
         Inr (JArr (existingKeys @
                    filter (\<lambda>k. \<forall>e \<in> set existingKeys.
                                  \<not> same_value_zero (name_of k) (name_of e)) importedKeys) [])
     \<and> js_get merged (str ''settings'') =
         Inr (JObj (spread (spread [] (lookup props (str ''settings''))) importedSettings))
     \<and> lookup (spread (spread [] (lookup props (str ''settings''))) importedSettings) f =
         (case map_of (rev (own_props importedSettings)) f of
            Some x \<Rightarrow> x
          | None \<Rightarrow>
              (case map_of (rev (own_props (lookup props (str ''settings'')))) f of
                 Some x \<Rightarrow> x | None \<Rightarrow> JUndefined))
     \<and> (g \<noteq> str ''keys'' \<and> g \<noteq> str ''settings'' \<longrightarrow>
          js_get merged g = Inr (lookup (spread [] (JObj props)) g))"
proof -
  have r: "readable imported" using assms(2) by (cases imported) (simp_all add: readable_def)
  obtain importedSettings where s: "js_get imported (str ''settings'') = Inr importedSettings"
    using js_get_readable [OF r] by blast
  let ?new = "filter (\<lambda>k. \<not> list_ex (same_value_zero (name_of k)) (map name_of existingKeys))
                importedKeys"
  let ?merged = "JObj (put (put (spread [] (JObj props))
                      (str ''keys'') (JArr (existingKeys @ ?new) []))
                      (str ''settings'')
                      (JObj (spread (spread [] (lookup props (str ''settings'')))
                               importedSettings)))"
  have h: "handleImportVault P file_text password v st = Inr (v\<lparr>vaultData := ?merged\<rparr>)"
    using assms s
    by (simp add: handleImportVault_def and_then_def elements_def names_of_readable
          filter_new_readable)
  have n: "?new = filter (\<lambda>k. \<forall>e \<in> set existingKeys.
                                  \<not> same_value_zero (name_of k) (name_of e)) importedKeys"
    by (simp add: list_ex_iff)
  show ?thesis
    by (rule exI [of _ ?merged], rule exI [of _ importedSettings])
       (simp add: h s n [symmetric] lookup_put str_distinct_fields lookup_merged_settings
          del: js_get.simps, simp add: lookup_put str_distinct_fields)
qed

lemma import_backup_BC:
  "fst (importVault test_platform backup_BC (str ''Str0ng!Pass'') st) =
     Inr (JObj [(str ''keys'', JArr [record_named ''B'', record_named ''C''] []),
                (str ''settings'',
                 JObj [(str ''clipboardClearTime'', JNum 30), (str ''autoLockTime'', JNum 15),
                       (str ''darkMode'', JBool True), (str ''showKeyPreview'', JBool False)]),
                (str ''version'', JNum 1)])"
proof -
  have 1: "parse test_platform backup_BC = Inr (envelope_of data_BC)"
    by (simp add: parse_test_platform parse_backup_BC)
  have 3: "parse test_platform document_BC =
     Inr (JObj [(str ''keys'', JArr [record_named ''B'', record_named ''C''] []),
                (str ''settings'', JObj [(str ''darkMode'', JBool True)]),
                (str ''version'', JNum 1)])"
    by (simp add: parse_test_platform parse_document_BC)
  have 4: "lookup [(str ''keys'', JArr [record_named ''B'', record_named ''C''] []),
                (str ''settings'', JObj [(str ''darkMode'', JBool True)]),
                (str ''version'', JNum 1)] (str ''keys'') =
           JArr [record_named ''B'', record_named ''C''] []"
    by (simp add: lookup_def)
  show ?thesis
    unfolding importVault_object [OF 1 decrypt_backup_BC 3 4]
    by (simp add: lookup_def str_distinct_fields spread_def DEFAULT_SETTINGS_def)
       (simp add: str_def)
qed

text \<open>
  The theorem on the vault with the records A and B and the backup with the records B and
  C: the new vault data has A, B and C, and the settings of the import.
\<close>

theorem import_merge_witness:
  "map_sum id
     (\<lambda>v'. (js_get (vaultData v') (str ''keys''), js_get (vaultData v') (str ''settings''),
            js_get (vaultData v') (str ''version'')))
     (handleImportVault test_platform backup_BC (str ''Str0ng!Pass'')
        \<lparr>vaultData = vault_AB, loading = False, error = []\<rparr> Map.empty) =
   Inr (Inr (JArr [record_named ''A'', record_named ''B'', record_named ''C''] []),
        Inr (JObj [(str ''clipboardClearTime'', JNum 30), (str ''autoLockTime'', JNum 15),
                   (str ''darkMode'', JBool True), (str ''showKeyPreview'', JBool False)]),
        Inr (JNum 1))"
proof -
  let ?settings = "JObj [(str ''clipboardClearTime'', JNum 30), (str ''autoLockTime'', JNum 15),
                       (str ''darkMode'', JBool True), (str ''showKeyPreview'', JBool False)]"
  let ?imported = "JObj [(str ''keys'', JArr [record_named ''B'', record_named ''C''] []),
                (str ''settings'', ?settings), (str ''version'', JNum 1)]"
  let ?props = "[(str ''keys'', JArr [record_named ''A'', record_named ''B''] []),
           (str ''settings'',
            JObj [(str ''clipboardClearTime'', JNum 60), (str ''autoLockTime'', JNum 5),
                  (str ''darkMode'', JBool False), (str ''showKeyPreview'', JBool True)]),
           (str ''version'', JNum 1)]"
  have 2: "js_get ?imported (str ''keys'') = Inr (JArr [record_named ''B'', record_named ''C''] [])"
    by (simp add: lookup_def)
  have 3: "vaultData \<lparr>vaultData = vault_AB, loading = False, error = []\<rparr> = JObj ?props"
    by (simp add: vault_AB_def)
  have 4: "lookup ?props (str ''keys'') = JArr [record_named ''A'', record_named ''B''] []"
    by (simp add: lookup_def)
  have 5: "\<forall>k \<in> set [record_named ''A'', record_named ''B'']. readable k"
    "\<forall>k \<in> set [record_named ''B'', record_named ''C'']. readable k"
    by (simp_all add: readable_def record_named_def)
  have n: "name_of (record_named x) = JStr (str x)" for x
    by (simp add: name_of_def record_named_def lookup_def)
  have d: "str ''A'' \<noteq> str ''B''" "str ''A'' \<noteq> str ''C''" "str ''B'' \<noteq> str ''C''"
    by (simp_all add: str_def)
  have f: "filter (\<lambda>k. \<forall>e \<in> set [record_named ''A'', record_named ''B''].
                       \<not> same_value_zero (name_of k) (name_of e))
             [record_named ''B'', record_named ''C''] = [record_named ''C'']"
    using d by (auto simp: n)
  have s: "js_get ?imported (str ''settings'') = Inr ?settings"
    by (simp add: lookup_def str_distinct_fields)
  have p: "spread (spread [] (lookup ?props (str ''settings''))) ?settings =
             [(str ''clipboardClearTime'', JNum 30), (str ''autoLockTime'', JNum 15),
              (str ''darkMode'', JBool True), (str ''showKeyPreview'', JBool False)]"
    by (simp add: lookup_def str_distinct_fields spread_def) (simp add: str_def)
  have v: "lookup (spread [] (JObj ?props)) (str ''version'') = JNum 1"
    by (simp add: lookup_spread str_distinct_fields)
  have g: "str ''version'' \<noteq> str ''keys'' \<and> str ''version'' \<noteq> str ''settings''"
    by (simp add: str_distinct_fields)
  from import_merge [OF import_backup_BC 2 3 4 5, of Map.empty "str ''darkMode''"
      "str ''version''"]
  obtain merged importedSettings where m:
    "handleImportVault test_platform backup_BC (str ''Str0ng!Pass'')
       \<lparr>vaultData = vault_AB, loading = False, error = []\<rparr> Map.empty =
     Inr (\<lparr>vaultData = vault_AB, loading = False, error = []\<rparr>\<lparr>vaultData := merged\<rparr>)"
    "js_get ?imported (str ''settings'') = Inr importedSettings"
    "js_get merged (str ''keys'') =
       Inr (JArr ([record_named ''A'', record_named ''B''] @
                  filter (\<lambda>k. \<forall>e \<in> set [record_named ''A'', record_named ''B''].
                                \<not> same_value_zero (name_of k) (name_of e))
                    [record_named ''B'', record_named ''C'']) [])"
    "js_get merged (str ''settings'') =
       Inr (JObj (spread (spread [] (lookup ?props (str ''settings''))) importedSettings))"
    "js_get merged (str ''version'') = Inr (lookup (spread [] (JObj ?props)) (str ''version''))"
    using g by blast
  from m(2) s have i: "importedSettings = ?settings" by simp
  have k: "js_get merged (str ''keys'') =
       Inr (JArr [record_named ''A'', record_named ''B'', record_named ''C''] [])"
    using m(3) by (simp only: f append.simps)
  have t: "js_get merged (str ''settings'') = Inr ?settings"
    using m(4) by (simp only: i p)
  have w: "js_get merged (str ''version'') = Inr (JNum 1)"
    using m(5) by (simp only: v)
  show ?thesis
    unfolding m(1) by (simp add: k t w del: js_get.simps)
qed

end
